theory Spec2Isabelle
  imports Main "HOL-Library.Word" "HOL-Library.Sublist"
begin

section \<open>The authentication subsystem of Watcharr (server/auth.go)\<close>

text \<open>
  A shallow embedding of \<^verbatim>\<open>server/auth.go\<close>. Its functions (\<open>hashPassword\<close>,
  \<open>generateRandomBytes\<close>, \<open>compareHash\<close>, \<open>decodeHash\<close>, \<open>signJWT\<close>,
  \<open>AuthRequired\<close>, \<open>register\<close>, \<open>login\<close>, \<open>loginJellyfin\<close>) are translated
  statement by statement. What they call outside the repository is either modelled from
  the documented behaviour of the package, as an executable function, or taken as a
  parameter:
  \<^item> \<^verbatim>\<open>encoding/base64\<close> (the raw encodings), \<^verbatim>\<open>strings.Split\<close>,
    \<^verbatim>\<open>strings.Contains\<close>, \<^verbatim>\<open>fmt.Sprintf\<close>, \<^verbatim>\<open>fmt.Sscanf\<close> and
    \<^verbatim>\<open>subtle.ConstantTimeCompare\<close> are executable models;
  \<^item> \<^verbatim>\<open>argon2.IDKey\<close>, \<^verbatim>\<open>crypto/rand\<close>, HMAC-SHA256, the JSON codec,
    \<^verbatim>\<open>net/url\<close> and \<^verbatim>\<open>net/http\<close> are parameters of the functions that use them;
  \<^item> the token package is modelled along its HS256 path, and gorm over the users
    table as a list of rows with the unique index declared by the struct tags.

  A Go \<open>string\<close> is a \<open>string\<close> here (a list of 8-bit characters), a \<open>[]byte\<close> a list
  of 8-bit words. A function returning \<open>(T, error)\<close> returns \<open>error + T\<close>; a panic is the
  value \<open>Inl (Panic _)\<close> and \<^verbatim>\<open>log.Fatal\<close> the value \<open>Inl (Fatal _)\<close>.
\<close>

subsection \<open>Bytes and errors\<close>

unbundle bit_operations_syntax

type_synonym byte = "8 word"

datatype scan_error =
    UnexpectedEOF | UnexpectedNewline | InputDoesNotMatchFormat | ExpectedInteger
  | ValueOutOfRange | IntegerOverflow | TooFewOperands | BadVerb

datatype jwt_error =
    TokenMalformed | TokenUnverifiable | TokenSignatureInvalid | TokenInvalidClaims

datatype error =
    New string
  | CorruptInputError
  | ScanError scan_error
  | JwtError jwt_error
  | Panic string
  | Fatal error

subsection \<open>encoding/base64\<close>

text \<open>
  The raw (unpadded) encodings \<open>RawStdEncoding\<close> and \<open>RawURLEncoding\<close>, and
  \<open>Strict\<close>. An encoding is its alphabet and its strict flag.

  \<open>EncodeToString\<close> writes three bytes as four characters, and a remainder of one or
  two bytes as two or three characters. \<open>DecodeString\<close> ignores carriage returns and
  line feeds wherever they stand, refuses every other character outside the alphabet,
  refuses a last group of one character, and in strict mode refuses a last group whose
  unused bits are not zero. The input position that \<open>CorruptInputError\<close> carries and the
  bytes that Go returns beside an error are left out: \<^verbatim>\<open>auth.go\<close> reads neither.
\<close>

record Encoding =
  encode :: string
  strict :: bool

definition encodeStd :: string where
  "encodeStd = ''ABCDEFGHIJKLMNOPQRSTUVWXYZabcdefghijklmnopqrstuvwxyz0123456789+/''"

definition encodeURL :: string where
  "encodeURL = ''ABCDEFGHIJKLMNOPQRSTUVWXYZabcdefghijklmnopqrstuvwxyz0123456789-_''"

definition RawStdEncoding :: Encoding where
  "RawStdEncoding = \<lparr>encode = encodeStd, strict = False\<rparr>"

definition RawURLEncoding :: Encoding where
  "RawURLEncoding = \<lparr>encode = encodeURL, strict = False\<rparr>"

definition Strict :: "Encoding \<Rightarrow> Encoding" where
  "Strict enc = enc\<lparr>strict := True\<rparr>"

definition to_byte :: "nat \<Rightarrow> byte" where
  "to_byte n = word_of_nat n"

fun EncodeToString :: "Encoding \<Rightarrow> byte list \<Rightarrow> string" where
  "EncodeToString enc (b0 # b1 # b2 # src) =
     (let val = push_bit 16 (unat b0) OR push_bit 8 (unat b1) OR unat b2 in
        [encode enc ! (drop_bit 18 val AND 63),
         encode enc ! (drop_bit 12 val AND 63),
         encode enc ! (drop_bit 6 val AND 63),
         encode enc ! (val AND 63)] @ EncodeToString enc src)"
| "EncodeToString enc [b0, b1] =
     (let val = push_bit 16 (unat b0) OR push_bit 8 (unat b1) in
        [encode enc ! (drop_bit 18 val AND 63),
         encode enc ! (drop_bit 12 val AND 63),
         encode enc ! (drop_bit 6 val AND 63)])"
| "EncodeToString enc [b0] =
     (let val = push_bit 16 (unat b0) in
        [encode enc ! (drop_bit 18 val AND 63),
         encode enc ! (drop_bit 12 val AND 63)])"
| "EncodeToString enc [] = []"

fun indexByte :: "string \<Rightarrow> char \<Rightarrow> nat" where
  "indexByte [] c = 0"
| "indexByte (x # xs) c = (if x = c then 0 else Suc (indexByte xs c))"

definition decodeMap :: "Encoding \<Rightarrow> char \<Rightarrow> nat" where
  "decodeMap enc c = (if c \<in> set (encode enc) then indexByte (encode enc) c else 255)"

fun decodeQuanta :: "bool \<Rightarrow> nat list \<Rightarrow> error + byte list" where
  "decodeQuanta st (d0 # d1 # d2 # d3 # ds) =
     (let val = push_bit 18 d0 OR push_bit 12 d1 OR push_bit 6 d2 OR d3 in
        case decodeQuanta st ds of
          Inl e \<Rightarrow> Inl e
        | Inr out \<Rightarrow> Inr (to_byte (drop_bit 16 val) # to_byte (drop_bit 8 val) # to_byte val # out))"
| "decodeQuanta st [d0, d1, d2] =
     (let val = push_bit 18 d0 OR push_bit 12 d1 OR push_bit 6 d2 in
        if st \<and> to_byte val \<noteq> 0 then Inl CorruptInputError
        else Inr [to_byte (drop_bit 16 val), to_byte (drop_bit 8 val)])"
| "decodeQuanta st [d0, d1] =
     (let val = push_bit 18 d0 OR push_bit 12 d1 in
        if st \<and> (to_byte (drop_bit 8 val) \<noteq> 0 \<or> to_byte val \<noteq> 0) then Inl CorruptInputError
        else Inr [to_byte (drop_bit 16 val)])"
| "decodeQuanta st [d0] = Inl CorruptInputError"
| "decodeQuanta st [] = Inr []"

definition DecodeString :: "Encoding \<Rightarrow> string \<Rightarrow> error + byte list" where
  "DecodeString enc s =
     (let src = filter (\<lambda>c. c \<noteq> CHR 0x0A \<and> c \<noteq> CHR 0x0D) s in
        if list_all (\<lambda>c. decodeMap enc c \<noteq> 255) src
        then decodeQuanta (strict enc) (map (decodeMap enc) src)
        else Inl CorruptInputError)"

definition wellformed_alphabet :: "Encoding \<Rightarrow> bool" where
  "wellformed_alphabet enc \<longleftrightarrow>
     length (encode enc) = 64 \<and> distinct (encode enc) \<and>
     CHR 0x0A \<notin> set (encode enc) \<and> CHR 0x0D \<notin> set (encode enc)"

subsection \<open>strings\<close>

text \<open>
  \<^verbatim>\<open>strings.Split(s, sep)\<close> for a separator of one byte: the substrings between the
  separators, one more than there are separators. \<^verbatim>\<open>strings.Contains(s, substr)\<close>.
\<close>

fun Split :: "string \<Rightarrow> char \<Rightarrow> string list" where
  "Split [] sep = [[]]"
| "Split (c # s) sep =
     (if c = sep then [] # Split s sep
      else (case Split s sep of [] \<Rightarrow> [[c]] | x # xs \<Rightarrow> (c # x) # xs))"

fun Contains :: "string \<Rightarrow> string \<Rightarrow> bool" where
  "Contains [] substr = (substr = [])"
| "Contains (c # s) substr = (prefix substr (c # s) \<or> Contains s substr)"

subsection \<open>fmt.Sprintf\<close>

text \<open>
  \<open>Sprintf\<close> for the verbs \<open>%d\<close> (an integer in decimal) and \<open>%s\<close> (a string),
  the two that \<^verbatim>\<open>auth.go\<close> uses. An operand of the wrong kind, a missing operand and
  extra operands are rendered as fmt renders them (\<open>%!d(string=x)\<close>,
  \<open>%!d(MISSING)\<close>, \<open>%!(EXTRA int=1)\<close>). Any other verb is outside the
  model, which copies it to the output.
\<close>

function dec :: "nat \<Rightarrow> string" where
  "dec n = (if n < 10 then [char_of (48 + n)] else dec (n div 10) @ [char_of (48 + n mod 10)])"
  by pat_completeness auto

termination
  by (relation "measure id") auto

declare dec.simps [simp del]

definition fmt_int :: "int \<Rightarrow> string" where
  "fmt_int i = (if i < 0 then CHR ''-'' # dec (nat (- i)) else dec (nat i))"

datatype arg = AInt int | AUint32 "32 word" | AUint8 "8 word" | AString string

fun typed_value :: "arg \<Rightarrow> string" where
  "typed_value (AInt i) = ''int='' @ fmt_int i"
| "typed_value (AUint32 w) = ''uint32='' @ dec (unat w)"
| "typed_value (AUint8 w) = ''uint8='' @ dec (unat w)"
| "typed_value (AString s) = ''string='' @ s"

fun fmt_d :: "arg \<Rightarrow> string" where
  "fmt_d (AInt i) = fmt_int i"
| "fmt_d (AUint32 w) = dec (unat w)"
| "fmt_d (AUint8 w) = dec (unat w)"
| "fmt_d (AString s) = ''%!d('' @ typed_value (AString s) @ '')''"

fun fmt_s :: "arg \<Rightarrow> string" where
  "fmt_s (AString s) = s"
| "fmt_s a = ''%!s('' @ typed_value a @ '')''"

fun extra_args :: "arg list \<Rightarrow> string" where
  "extra_args [] = []"
| "extra_args [a] = typed_value a"
| "extra_args (a # as) = typed_value a @ '', '' @ extra_args as"

fun Sprintf :: "string \<Rightarrow> arg list \<Rightarrow> string" where
  "Sprintf [] args = (if args = [] then [] else ''%!(EXTRA '' @ extra_args args @ '')'')"
| "Sprintf (c # fs) args =
     (if c \<noteq> CHR ''%'' then c # Sprintf fs args
      else (case fs of
              [] \<Rightarrow> ''%!(NOVERB)''
            | v # fs' \<Rightarrow>
                if v = CHR ''d'' \<or> v = CHR ''s'' then
                  (case args of
                     [] \<Rightarrow> ''%!'' @ [v] @ ''(MISSING)'' @ Sprintf fs' []
                   | a # as \<Rightarrow> (if v = CHR ''d'' then fmt_d a else fmt_s a) @ Sprintf fs' as)
                else c # v # Sprintf fs' args))"

subsection \<open>fmt.Sscanf\<close>

text \<open>
  \<open>Sscanf\<close> for formats made of \<open>%d\<close> verbs and of ASCII text other than spaces,
  with operands of type \<open>*int\<close>, \<open>*uint32\<close> and \<open>*uint8\<close> (\<open>int\<close> has
  64 bits). Text of the format must match the input byte for byte. Before a number the
  scanner skips spaces: every rune of fmt's space table, recognised here by its UTF-8
  encoding (\<open>space_rune\<close>), a line feed being an error. A signed operand accepts one
  sign. The digits are read as far as they go, their value must fit 64 bits and then the
  operand's type. Input left after the last verb is ignored. Errors carry their kind
  (\<open>scan_error\<close>), not fmt's message. The scanner's limit of \<open>2^30\<close> runes per operand
  is not modelled.
\<close>

definition space_rune :: "string \<Rightarrow> string option" where
  "space_rune s =
     (case s of
        [] \<Rightarrow> None
      | c1 # r1 \<Rightarrow>
          if of_char c1 \<in> {9, 11, 12, 13, 32 :: nat} then Some r1
          else (case r1 of
                  [] \<Rightarrow> None
                | c2 # r2 \<Rightarrow>
                    if of_char c1 = (0xC2 :: nat) \<and> of_char c2 \<in> {0x85, 0xA0 :: nat} then Some r2
                    else (case r2 of
                            [] \<Rightarrow> None
                          | c3 # r3 \<Rightarrow>
                              let n1 = of_char c1 :: nat; n2 = of_char c2 :: nat; n3 = of_char c3 :: nat in
                              if (n1 = 0xE1 \<and> n2 = 0x9A \<and> n3 = 0x80)
                               \<or> (n1 = 0xE2 \<and> n2 = 0x80 \<and> (0x80 \<le> n3 \<and> n3 \<le> 0x8A \<or> n3 \<in> {0xA8, 0xA9, 0xAF}))
                               \<or> (n1 = 0xE2 \<and> n2 = 0x81 \<and> n3 = 0x9F)
                               \<or> (n1 = 0xE3 \<and> n2 = 0x80 \<and> n3 = 0x80)
                              then Some r3 else None)))"

lemma space_rune_shorter: "space_rune s = Some r \<Longrightarrow> length r < length s"
  by (auto simp: space_rune_def Let_def split: list.splits if_splits)

function SkipSpace :: "string \<Rightarrow> error + string" where
  "SkipSpace s =
     (case s of
        [] \<Rightarrow> Inr []
      | c # r \<Rightarrow>
          if c = CHR 0x0A then Inl (ScanError UnexpectedNewline)
          else (case space_rune s of None \<Rightarrow> Inr s | Some r' \<Rightarrow> SkipSpace r'))"
  by pat_completeness auto

termination
  by (relation "measure length") (auto dest: space_rune_shorter)

declare SkipSpace.simps [simp del]

definition isDigit :: "char \<Rightarrow> bool" where
  "isDigit c \<longleftrightarrow> 48 \<le> (of_char c :: nat) \<and> (of_char c :: nat) \<le> 57"

fun digits_val :: "nat \<Rightarrow> string \<Rightarrow> nat" where
  "digits_val acc [] = acc"
| "digits_val acc (c # cs) = digits_val (acc * 10 + (of_char c - 48)) cs"

definition scanNumber :: "string \<Rightarrow> error + (string \<times> string)" where
  "scanNumber s =
     (if s = [] then Inl (ScanError UnexpectedEOF)
      else if takeWhile isDigit s = [] then Inl (ScanError ExpectedInteger)
      else Inr (takeWhile isDigit s, dropWhile isDigit s))"

definition scanInt :: "nat \<Rightarrow> string \<Rightarrow> error + (int \<times> string)" where
  "scanInt bitSize s =
     (case SkipSpace s of
        Inl e \<Rightarrow> Inl e
      | Inr s1 \<Rightarrow>
          if s1 = [] then Inl (ScanError UnexpectedEOF)
          else
            let neg = (hd s1 = CHR ''-'');
                s2 = (if hd s1 = CHR ''+'' \<or> hd s1 = CHR ''-'' then tl s1 else s1) in
            (case scanNumber s2 of
               Inl e \<Rightarrow> Inl e
             | Inr (tok, s3) \<Rightarrow>
                 let i = (if neg then - int (digits_val 0 tok) else int (digits_val 0 tok)) in
                 if i < - (2 ^ 63) \<or> 2 ^ 63 \<le> i then Inl (ScanError ValueOutOfRange)
                 else if i < - (2 ^ (bitSize - 1)) \<or> 2 ^ (bitSize - 1) \<le> i
                   then Inl (ScanError IntegerOverflow)
                 else Inr (i, s3)))"

definition scanUint :: "nat \<Rightarrow> string \<Rightarrow> error + (nat \<times> string)" where
  "scanUint bitSize s =
     (case SkipSpace s of
        Inl e \<Rightarrow> Inl e
      | Inr s1 \<Rightarrow>
          if s1 = [] then Inl (ScanError UnexpectedEOF)
          else
            (case scanNumber s1 of
               Inl e \<Rightarrow> Inl e
             | Inr (tok, s3) \<Rightarrow>
                 let i = digits_val 0 tok in
                 if 2 ^ 64 \<le> i then Inl (ScanError ValueOutOfRange)
                 else if 2 ^ bitSize \<le> i then Inl (ScanError IntegerOverflow)
                 else Inr (i, s3)))"

datatype ptr = PInt | PUint32 | PUint8

datatype scanned = SInt int | SUint32 "32 word" | SUint8 "8 word"

fun scanOne :: "ptr \<Rightarrow> string \<Rightarrow> error + (scanned \<times> string)" where
  "scanOne PInt s = (case scanInt 64 s of Inl e \<Rightarrow> Inl e | Inr (i, r) \<Rightarrow> Inr (SInt i, r))"
| "scanOne PUint32 s = (case scanUint 32 s of Inl e \<Rightarrow> Inl e | Inr (n, r) \<Rightarrow> Inr (SUint32 (word_of_nat n), r))"
| "scanOne PUint8 s = (case scanUint 8 s of Inl e \<Rightarrow> Inl e | Inr (n, r) \<Rightarrow> Inr (SUint8 (word_of_nat n), r))"

definition plain_format_char :: "char \<Rightarrow> bool" where
  "plain_format_char c \<longleftrightarrow> (of_char c :: nat) < 128 \<and> (of_char c :: nat) \<notin> {9, 10, 11, 12, 13, 32}"

fun doScanf :: "string \<Rightarrow> string \<Rightarrow> ptr list \<Rightarrow> error + scanned list" where
  "doScanf [] s a = Inr []"
| "doScanf (c # fs) s a =
     (if c = CHR ''%'' then
        (case fs of
           [] \<Rightarrow> Inl (ScanError BadVerb)
         | v # fs' \<Rightarrow>
             if v \<noteq> CHR ''d'' then Inl (ScanError BadVerb)
             else (case SkipSpace s of
                     Inl e \<Rightarrow> Inl e
                   | Inr s1 \<Rightarrow>
                       (case a of
                          [] \<Rightarrow> Inl (ScanError TooFewOperands)
                        | p # a' \<Rightarrow>
                            (case scanOne p s1 of
                               Inl e \<Rightarrow> Inl e
                             | Inr (x, s2) \<Rightarrow>
                                 (case doScanf fs' s2 a' of
                                    Inl e \<Rightarrow> Inl e
                                  | Inr xs \<Rightarrow> Inr (x # xs))))))
      else if \<not> plain_format_char c then Inl (ScanError BadVerb)
      else (case s of
              [] \<Rightarrow> Inl (ScanError UnexpectedEOF)
            | d # s' \<Rightarrow>
                if d = c then doScanf fs s' a else Inl (ScanError InputDoesNotMatchFormat)))"

definition Sscanf :: "string \<Rightarrow> string \<Rightarrow> ptr list \<Rightarrow> error + scanned list" where
  "Sscanf str format a = doScanf format str a"

fun the_int :: "scanned \<Rightarrow> int" where
  "the_int (SInt i) = i"
| "the_int (SUint32 w) = uint w"
| "the_int (SUint8 w) = uint w"

fun the_uint32 :: "scanned \<Rightarrow> 32 word" where
  "the_uint32 (SUint32 w) = w"
| "the_uint32 (SInt i) = word_of_int i"
| "the_uint32 (SUint8 w) = ucast w"

fun the_uint8 :: "scanned \<Rightarrow> 8 word" where
  "the_uint8 (SUint8 w) = w"
| "the_uint8 (SInt i) = word_of_int i"
| "the_uint8 (SUint32 w) = ucast w"

subsection \<open>auth.go: password hashing\<close>

text \<open>
  \<^verbatim>\<open>argon2.IDKey(password, salt, time, memory, threads, keyLen)\<close> is the parameter
  \<open>IDKey\<close> of the functions below, of type \<open>kdf\<close>; it returns \<open>Inl (Panic _)\<close>
  where the package panics (fewer than one pass or thread). \<^verbatim>\<open>crypto/rand\<close> is the
  parameter \<open>rnd\<close>: \<open>None\<close> when reading fails, \<open>Some src\<close> when it delivers the
  bytes \<open>src 0\<close>, \<open>src 1\<close>, ... \<open>argon2_Version\<close> is the package's constant
  \<^verbatim>\<open>argon2.Version\<close>. \<open>bytes_of\<close> is the conversion \<^verbatim>\<open>[]byte(s)\<close>.
\<close>

record ArgonParams =
  memory :: "32 word"
  iterations :: "32 word"
  parallelism :: "8 word"
  saltLength :: "32 word"
  keyLength :: "32 word"

type_synonym kdf = "byte list \<Rightarrow> byte list \<Rightarrow> 32 word \<Rightarrow> 32 word \<Rightarrow> 8 word \<Rightarrow> 32 word \<Rightarrow> error + byte list"

type_synonym rand_reader = "(nat \<Rightarrow> byte) option"

definition argon2_Version :: int where
  "argon2_Version = 0x13"

definition bytes_of :: "string \<Rightarrow> byte list" where
  "bytes_of s = map of_char s"

definition generateRandomBytes :: "rand_reader \<Rightarrow> 32 word \<Rightarrow> error + byte list" where
  "generateRandomBytes rnd n =
     (case rnd of
        None \<Rightarrow> Inl (New ''crypto/rand: read failed'')
      | Some src \<Rightarrow> Inr (map src [0..<unat n]))"

definition hashPassword :: "kdf \<Rightarrow> rand_reader \<Rightarrow> string \<Rightarrow> ArgonParams \<Rightarrow> error + string" where
  "hashPassword IDKey rnd password p =
     (case generateRandomBytes rnd (saltLength p) of
        Inl err \<Rightarrow> Inl err
      | Inr salt \<Rightarrow>
          (case IDKey (bytes_of password) salt (iterations p) (memory p) (parallelism p) (keyLength p) of
             Inl pn \<Rightarrow> Inl pn
           | Inr hash \<Rightarrow>
               let b64Salt = EncodeToString RawStdEncoding salt;
                   b64Hash = EncodeToString RawStdEncoding hash;
                   encodedHash = Sprintf ''$argon2id$v=%d$m=%d,t=%d,p=%d$%s$%s''
                     [AInt argon2_Version, AUint32 (memory p), AUint32 (iterations p),
                      AUint8 (parallelism p), AString b64Salt, AString b64Hash]
               in Inr encodedHash))"

text \<open>
  \<^verbatim>\<open>subtle.ConstantTimeCompare\<close>: 0 for slices of different lengths; otherwise the
  exclusive-or of each pair of bytes is accumulated with or, and the result is 1 when
  nothing accumulated.
\<close>

definition ConstantTimeCompare :: "byte list \<Rightarrow> byte list \<Rightarrow> int" where
  "ConstantTimeCompare x y =
     (if length x \<noteq> length y then 0
      else if fold (\<lambda>(a, b) v. v OR (a XOR b)) (zip x y) 0 = 0 then 1 else 0)"

definition decodeHash :: "string \<Rightarrow> error + (ArgonParams \<times> byte list \<times> byte list)" where
  "decodeHash encodedHash =
     (let vals = Split encodedHash (CHR ''$'') in
      if length vals \<noteq> 6 then Inl (New ''the encoded hash is not in the correct format'')
      else
        case Sscanf (vals ! 2) ''v=%d'' [PInt] of
          Inl err \<Rightarrow> Inl err
        | Inr vs \<Rightarrow>
            let version = the_int (vs ! 0) in
            if version \<noteq> argon2_Version then Inl (New ''incompatible version of argon2'')
            else
              case Sscanf (vals ! 3) ''m=%d,t=%d,p=%d'' [PUint32, PUint32, PUint8] of
                Inl err \<Rightarrow> Inl err
              | Inr ps \<Rightarrow>
                  let p = \<lparr>memory = the_uint32 (ps ! 0), iterations = the_uint32 (ps ! 1),
                           parallelism = the_uint8 (ps ! 2), saltLength = 0, keyLength = 0\<rparr> in
                  case DecodeString (Strict RawStdEncoding) (vals ! 4) of
                    Inl err \<Rightarrow> Inl err
                  | Inr salt \<Rightarrow>
                      let p = p\<lparr>saltLength := word_of_nat (length salt)\<rparr> in
                      case DecodeString (Strict RawStdEncoding) (vals ! 5) of
                        Inl err \<Rightarrow> Inl err
                      | Inr hash \<Rightarrow>
                          let p = p\<lparr>keyLength := word_of_nat (length hash)\<rparr> in
                          Inr (p, salt, hash))"

definition compareHash :: "kdf \<Rightarrow> string \<Rightarrow> string \<Rightarrow> error + bool" where
  "compareHash IDKey password encodedHash =
     (case decodeHash encodedHash of
        Inl err \<Rightarrow> Inl err
      | Inr (p, salt, hash) \<Rightarrow>
          (case IDKey (bytes_of password) salt (iterations p) (memory p) (parallelism p) (keyLength p) of
             Inl pn \<Rightarrow> Inl pn
           | Inr otherHash \<Rightarrow>
               if ConstantTimeCompare hash otherHash = 1 then Inr True else Inr False))"

subsection \<open>crypto/sha256 and crypto/hmac\<close>

text \<open>
  \<open>Sum256\<close> is SHA-256 as FIPS 180-4 specifies it (\<^verbatim>\<open>sha256.Sum256\<close>): the message is
  padded with the byte \<open>0x80\<close>, zeros, and its length in bits as eight bytes, to a
  multiple of 64 bytes; each block of 64 bytes is expanded to 64 words (\<open>schedule\<close>)
  and run through 64 rounds (\<open>round256\<close>) from the current hash value, to which the
  result is added (\<open>block256\<close>); the digest is the last hash value, big-endian.
  \<open>K256\<close> and \<open>init256\<close> are the constants of sections 4.2.2 and 5.3.3 of the
  standard.

  \<open>HMAC_SHA256 key msg\<close> is the tag that \<^verbatim>\<open>hmac.New(sha256.New, key)\<close> gives for
  \<open>msg\<close> (RFC 2104): a key longer than the block size of 64 bytes is first replaced by
  its digest, the key is padded with zeros to 64 bytes (\<open>hmac_key\<close>), and the tag is
  the digest of the padded key xor \<open>0x5c\<close> followed by the digest of the padded key
  xor \<open>0x36\<close> followed by the message.
\<close>

definition rotr :: "nat \<Rightarrow> 32 word \<Rightarrow> 32 word" where
  "rotr n x = drop_bit n x OR push_bit (32 - n) x"

definition Ch :: "32 word \<Rightarrow> 32 word \<Rightarrow> 32 word \<Rightarrow> 32 word" where
  "Ch x y z = (x AND y) XOR (NOT x AND z)"

definition Maj :: "32 word \<Rightarrow> 32 word \<Rightarrow> 32 word \<Rightarrow> 32 word" where
  "Maj x y z = (x AND y) XOR (x AND z) XOR (y AND z)"

definition Sigma0 :: "32 word \<Rightarrow> 32 word" where
  "Sigma0 x = rotr 2 x XOR rotr 13 x XOR rotr 22 x"

definition Sigma1 :: "32 word \<Rightarrow> 32 word" where
  "Sigma1 x = rotr 6 x XOR rotr 11 x XOR rotr 25 x"

definition sigma0 :: "32 word \<Rightarrow> 32 word" where
  "sigma0 x = rotr 7 x XOR rotr 18 x XOR drop_bit 3 x"

definition sigma1 :: "32 word \<Rightarrow> 32 word" where
  "sigma1 x = rotr 17 x XOR rotr 19 x XOR drop_bit 10 x"

definition K256 :: "32 word list" where
  "K256 =
    [0x428A2F98, 0x71374491, 0xB5C0FBCF, 0xE9B5DBA5, 0x3956C25B, 0x59F111F1, 0x923F82A4, 0xAB1C5ED5,
     0xD807AA98, 0x12835B01, 0x243185BE, 0x550C7DC3, 0x72BE5D74, 0x80DEB1FE, 0x9BDC06A7, 0xC19BF174,
     0xE49B69C1, 0xEFBE4786, 0x0FC19DC6, 0x240CA1CC, 0x2DE92C6F, 0x4A7484AA, 0x5CB0A9DC, 0x76F988DA,
     0x983E5152, 0xA831C66D, 0xB00327C8, 0xBF597FC7, 0xC6E00BF3, 0xD5A79147, 0x06CA6351, 0x14292967,
     0x27B70A85, 0x2E1B2138, 0x4D2C6DFC, 0x53380D13, 0x650A7354, 0x766A0ABB, 0x81C2C92E, 0x92722C85,
     0xA2BFE8A1, 0xA81A664B, 0xC24B8B70, 0xC76C51A3, 0xD192E819, 0xD6990624, 0xF40E3585, 0x106AA070,
     0x19A4C116, 0x1E376C08, 0x2748774C, 0x34B0BCB5, 0x391C0CB3, 0x4ED8AA4A, 0x5B9CCA4F, 0x682E6FF3,
     0x748F82EE, 0x78A5636F, 0x84C87814, 0x8CC70208, 0x90BEFFFA, 0xA4506CEB, 0xBEF9A3F7, 0xC67178F2]"

type_synonym digest = "32 word \<times> 32 word \<times> 32 word \<times> 32 word \<times> 32 word \<times> 32 word \<times> 32 word \<times> 32 word"

definition init256 :: digest where
  "init256 = (0x6A09E667, 0xBB67AE85, 0x3C6EF372, 0xA54FF53A, 0x510E527F, 0x9B05688C, 0x1F83D9AB, 0x5BE0CD19)"

definition be32 :: "byte \<Rightarrow> byte \<Rightarrow> byte \<Rightarrow> byte \<Rightarrow> 32 word" where
  "be32 b0 b1 b2 b3 = push_bit 24 (ucast b0) OR push_bit 16 (ucast b1) OR push_bit 8 (ucast b2) OR ucast b3"

fun be_words :: "byte list \<Rightarrow> 32 word list" where
  "be_words (b0 # b1 # b2 # b3 # bs) = be32 b0 b1 b2 b3 # be_words bs"
| "be_words bs = []"

definition be_bytes :: "32 word \<Rightarrow> byte list" where
  "be_bytes w = [ucast (drop_bit 24 w), ucast (drop_bit 16 w), ucast (drop_bit 8 w), ucast w]"

fun schedule :: "nat \<Rightarrow> 32 word list \<Rightarrow> 32 word list" where
  "schedule 0 w = w"
| "schedule (Suc n) w =
     schedule n (w @ [sigma1 (w ! (length w - 2)) + w ! (length w - 7) +
                      sigma0 (w ! (length w - 15)) + w ! (length w - 16)])"

definition step :: "32 word \<Rightarrow> 32 word \<Rightarrow> digest \<Rightarrow> digest" where
  "step T1 T2 s = (case s of (a, b, c, d, e, f, g, h) \<Rightarrow> (T1 + T2, a, b, c, d + T1, e, f, g))"

fun round256 :: "32 word \<times> 32 word \<Rightarrow> digest \<Rightarrow> digest" where
  "round256 (k, w) (a, b, c, d, e, f, g, h) =
     step (h + Sigma1 e + Ch e f g + k + w) (Sigma0 a + Maj a b c) (a, b, c, d, e, f, g, h)"

fun add_digest :: "digest \<Rightarrow> digest \<Rightarrow> digest" where
  "add_digest (a, b, c, d, e, f, g, h) (a', b', c', d', e', f', g', h') =
     (a + a', b + b', c + c', d + d', e + e', f + f', g + g', h + h')"

definition block256 :: "digest \<Rightarrow> byte list \<Rightarrow> digest" where
  "block256 H p = add_digest H (fold round256 (zip K256 (schedule 48 (be_words p))) H)"

definition pad256 :: "byte list \<Rightarrow> byte list" where
  "pad256 m = m @ 0x80 # replicate ((119 - length m mod 64) mod 64) 0 @
     map (\<lambda>i. word_of_nat (8 * length m div 2 ^ (8 * (7 - i)) mod 256)) [0..<8]"

function blocks256 :: "digest \<Rightarrow> byte list \<Rightarrow> digest" where
  "blocks256 H p = (if length p < 64 then H else blocks256 (block256 H (take 64 p)) (drop 64 p))"
  by pat_completeness auto
termination
  by (relation "measure (\<lambda>(H, p). length p)") auto

declare blocks256.simps [simp del]

fun digest_bytes :: "digest \<Rightarrow> byte list" where
  "digest_bytes (a, b, c, d, e, f, g, h) =
     be_bytes a @ be_bytes b @ be_bytes c @ be_bytes d @ be_bytes e @ be_bytes f @ be_bytes g @ be_bytes h"

definition Sum256 :: "byte list \<Rightarrow> byte list" where
  "Sum256 m = digest_bytes (blocks256 init256 (pad256 m))"

definition hmac_key :: "byte list \<Rightarrow> byte list" where
  "hmac_key key = (let k = (if 64 < length key then Sum256 key else key) in k @ replicate (64 - length k) 0)"

definition HMAC_SHA256 :: "byte list \<Rightarrow> byte list \<Rightarrow> byte list" where
  "HMAC_SHA256 key msg =
     Sum256 (map (\<lambda>b. b XOR 0x5c) (hmac_key key) @ Sum256 (map (\<lambda>b. b XOR 0x36) (hmac_key key) @ msg))"

subsection \<open>The process environment\<close>

text \<open>\<^verbatim>\<open>os.Getenv\<close>: the value of a variable, empty when it is not set.\<close>

type_synonym environ = "string \<Rightarrow> string"

definition Getenv :: "environ \<Rightarrow> string \<Rightarrow> string" where
  "Getenv env key = env key"

subsection \<open>github.com/golang-jwt/jwt/v5\<close>

text \<open>
  The token package along the path \<^verbatim>\<open>auth.go\<close> takes: \<open>NewWithClaims\<close> with
  \<open>SigningMethodHS256\<close>, \<open>SignedString\<close>, and \<open>ParseWithClaims\<close> with a key
  function and the default options (as in version 5.2).

  \<open>TokenClaims\<close> is the struct of \<^verbatim>\<open>auth.go\<close> with the embedded
  \<open>RegisteredClaims\<close> flattened to the fields that are written at issue or read by the
  default validation; \<open>Username'\<close> is its field \<open>Username\<close> (the plain name is the
  field of \<open>User\<close>). Times are in seconds.

  A token is \<open>EncodeSegment header . EncodeSegment claims . EncodeSegment signature\<close>,
  the segments in unpadded URL base64 and the signature the MAC of the first two segments
  and their dot. \<open>ParseWithClaims\<close> splits at the dots (three parts), decodes header and
  claims, looks the method up by the header's \<open>alg\<close>, decodes the signature, asks the
  key function for the key, checks the signature, and validates the claims: an expiry
  or a not-before time is checked when present, the issue time is not. The errors are
  the package's kinds (\<open>jwt_error\<close>).

  Parameters (\<open>jwt_lib\<close>): the MAC of the HS256 method (key, then message), which in
  the package is \<open>HMAC_SHA256\<close>, the JSON codec for the header (an association list of
  its string entries) and for the claims, and the verification functions of the signing
  methods other than HS256.
\<close>

record TokenClaims =
  UserID :: nat
  Username' :: string
  Issuer :: string
  IssuedAt :: "int option"
  ExpiresAt :: "int option"
  NotBefore :: "int option"

record jwt_Token =
  Header :: "(string \<times> string) list"
  Claims :: TokenClaims
  Signature :: "byte list"
  Valid :: bool

record jwt_lib =
  hmac_sha256 :: "byte list \<Rightarrow> byte list \<Rightarrow> byte list"
  marshal_header :: "(string \<times> string) list \<Rightarrow> byte list"
  unmarshal_header :: "byte list \<Rightarrow> error + (string \<times> string) list"
  marshal_claims :: "TokenClaims \<Rightarrow> byte list"
  unmarshal_claims :: "byte list \<Rightarrow> error + TokenClaims"
  other_methods :: "string \<Rightarrow> (string \<Rightarrow> byte list \<Rightarrow> byte list \<Rightarrow> bool) option"

definition NewWithClaims :: "string \<Rightarrow> TokenClaims \<Rightarrow> jwt_Token" where
  "NewWithClaims alg claims =
     \<lparr>Header = [(''typ'', ''JWT''), (''alg'', alg)], Claims = claims, Signature = [], Valid = False\<rparr>"

definition EncodeSegment :: "byte list \<Rightarrow> string" where
  "EncodeSegment seg = EncodeToString RawURLEncoding seg"

definition DecodeSegment :: "string \<Rightarrow> error + byte list" where
  "DecodeSegment seg = DecodeString RawURLEncoding seg"

definition SigningString :: "jwt_lib \<Rightarrow> jwt_Token \<Rightarrow> string" where
  "SigningString lib t =
     EncodeSegment (marshal_header lib (Header t)) @ ''.'' @ EncodeSegment (marshal_claims lib (Claims t))"

definition SignedString :: "jwt_lib \<Rightarrow> jwt_Token \<Rightarrow> byte list \<Rightarrow> error + string" where
  "SignedString lib t key =
     (let sstr = SigningString lib t;
          sig = hmac_sha256 lib key (bytes_of sstr)
      in Inr (sstr @ ''.'' @ EncodeSegment sig))"

definition method_Verify :: "jwt_lib \<Rightarrow> string \<Rightarrow> (string \<Rightarrow> byte list \<Rightarrow> byte list \<Rightarrow> bool) option" where
  "method_Verify lib alg =
     (if alg = ''HS256'' then Some (\<lambda>signingString sig key. sig = hmac_sha256 lib key (bytes_of signingString))
      else other_methods lib alg)"

definition Validate :: "int \<Rightarrow> TokenClaims \<Rightarrow> error + unit" where
  "Validate now claims =
     (let expired = (case ExpiresAt claims of Some exp \<Rightarrow> \<not> now < exp | None \<Rightarrow> False);
          early = (case NotBefore claims of Some nbf \<Rightarrow> now < nbf | None \<Rightarrow> False)
      in if expired \<or> early then Inl (JwtError TokenInvalidClaims) else Inr ())"

definition ParseWithClaims ::
  "jwt_lib \<Rightarrow> int \<Rightarrow> string \<Rightarrow> (jwt_Token \<Rightarrow> error + byte list) \<Rightarrow> error + jwt_Token" where
  "ParseWithClaims lib now tokenString keyFunc =
     (let parts = Split tokenString (CHR ''.'') in
      if length parts \<noteq> 3 then Inl (JwtError TokenMalformed)
      else
        case DecodeSegment (parts ! 0) of
          Inl err \<Rightarrow> Inl (JwtError TokenMalformed)
        | Inr headerBytes \<Rightarrow>
        case unmarshal_header lib headerBytes of
          Inl err \<Rightarrow> Inl (JwtError TokenMalformed)
        | Inr header \<Rightarrow>
        case DecodeSegment (parts ! 1) of
          Inl err \<Rightarrow> Inl (JwtError TokenMalformed)
        | Inr claimBytes \<Rightarrow>
        case unmarshal_claims lib claimBytes of
          Inl err \<Rightarrow> Inl (JwtError TokenMalformed)
        | Inr claims \<Rightarrow>
        case map_of header ''alg'' of
          None \<Rightarrow> Inl (JwtError TokenUnverifiable)
        | Some alg \<Rightarrow>
        case method_Verify lib alg of
          None \<Rightarrow> Inl (JwtError TokenUnverifiable)
        | Some verify \<Rightarrow>
        case DecodeSegment (parts ! 2) of
          Inl err \<Rightarrow> Inl (JwtError TokenMalformed)
        | Inr sig \<Rightarrow>
        let token = \<lparr>Header = header, Claims = claims, Signature = sig, Valid = False\<rparr>;
            text = parts ! 0 @ ''.'' @ parts ! 1 in
        case keyFunc token of
          Inl err \<Rightarrow> Inl (JwtError TokenUnverifiable)
        | Inr key \<Rightarrow>
        if \<not> verify text sig key then Inl (JwtError TokenSignatureInvalid)
        else
          case Validate now claims of
            Inl err \<Rightarrow> Inl err
          | Inr _ \<Rightarrow> Inr (token\<lparr>Valid := True\<rparr>))"

subsection \<open>auth.go: the User record, and gorm over the users table\<close>

text \<open>
  \<open>User\<close> is the struct of \<^verbatim>\<open>auth.go\<close>; its association \<open>Watched\<close> plays no
  part in \<^verbatim>\<open>auth.go\<close> and is left out.

  Modelled from the spec: the declaration of \<open>GormModel\<close>, which \<open>User\<close> embeds, is
  not among the sources. Only its field \<open>ID\<close> is read by \<^verbatim>\<open>auth.go\<close>; following
  section 3 of the specification it is assigned by the store.

  The store \<open>DB\<close> holds the rows of the users table in insertion order, the next ID
  to assign, and a schedule of driver failures: the head of \<open>faults\<close> says whether the
  next statement fails (\<open>Some msg\<close>, with the driver's message) or runs (\<open>None\<close>, or
  an empty schedule). \<open>Take cond\<close> is \<^verbatim>\<open>db.Where(...).Take(&u)\<close>: the first row
  that satisfies the condition, or \<open>ErrRecordNotFound\<close>. \<open>Create\<close> is
  \<^verbatim>\<open>db.Create(&u)\<close>: it enforces the unique index \<open>usr_name_to_type\<close> that the
  struct tags put on (\<open>Username\<close>, \<open>Type\<close>), reporting a violation with SQLite's
  message, and otherwise appends the row with its ID filled in.
\<close>

type_synonym UserType = "8 word"

definition JELLYFIN_USER :: UserType where
  "JELLYFIN_USER = 1"

record User =
  ID :: nat
  Username :: string
  Password :: string
  Type :: UserType
  ThirdPartyID :: string

datatype db_error = ErrRecordNotFound | DriverError string

fun db_Error :: "db_error \<Rightarrow> string" where
  "db_Error ErrRecordNotFound = ''record not found''"
| "db_Error (DriverError msg) = msg"

record DB =
  users :: "User list"
  nextID :: nat
  faults :: "string option list"

definition next_fault :: "DB \<Rightarrow> string option \<times> DB" where
  "next_fault db =
     (case faults db of
        [] \<Rightarrow> (None, db)
      | f # fs \<Rightarrow> (f, db\<lparr>faults := fs\<rparr>))"

definition Take :: "(User \<Rightarrow> bool) \<Rightarrow> DB \<Rightarrow> (db_error + User) \<times> DB" where
  "Take cond db =
     (case next_fault db of
        (Some msg, db') \<Rightarrow> (Inl (DriverError msg), db')
      | (None, db') \<Rightarrow>
          (case filter cond (users db') of
             [] \<Rightarrow> (Inl ErrRecordNotFound, db')
           | u # _ \<Rightarrow> (Inr u, db')))"

definition Create :: "User \<Rightarrow> DB \<Rightarrow> (db_error + User) \<times> DB" where
  "Create user db =
     (case next_fault db of
        (Some msg, db') \<Rightarrow> (Inl (DriverError msg), db')
      | (None, db') \<Rightarrow>
          if list_ex (\<lambda>r. Username r = Username user \<and> Type r = Type user) (users db')
          then (Inl (DriverError ''UNIQUE constraint failed: users.username, users.type''), db')
          else
            let row = user\<lparr>ID := nextID db'\<rparr> in
            (Inr row, db'\<lparr>users := users db' @ [row], nextID := Suc (nextID db')\<rparr>))"

subsection \<open>auth.go: signJWT and AuthRequired\<close>

text \<open>
  \<open>now\<close> is the reading of the clock. \<open>AuthRequired\<close> is the handler applied to the
  value of the \<open>Authorization\<close> header; its result is what it does to the request:
  \<open>AbortWithStatus 401\<close>, or \<open>Next uid\<close> after setting \<open>userId\<close> to \<open>uid\<close>.
\<close>

record AuthResponse =
  Token :: string

definition signJWT :: "jwt_lib \<Rightarrow> environ \<Rightarrow> int \<Rightarrow> User \<Rightarrow> error + string" where
  "signJWT lib env now user =
     (let jwt = NewWithClaims ''HS256''
                  \<lparr>UserID = ID user, Username' = Username user, Issuer = ''watcharr'',
                   IssuedAt = Some now, ExpiresAt = None, NotBefore = None\<rparr>
      in SignedString lib jwt (bytes_of (Getenv env ''JWT_SECRET'')))"

datatype gin_result = AbortWithStatus nat | Next nat

definition AuthRequired :: "jwt_lib \<Rightarrow> environ \<Rightarrow> int \<Rightarrow> string \<Rightarrow> gin_result" where
  "AuthRequired lib env now atoken =
     (if atoken = [] then AbortWithStatus 401
      else
        case ParseWithClaims lib now atoken (\<lambda>token. Inr (bytes_of (Getenv env ''JWT_SECRET''))) of
          Inl err \<Rightarrow> AbortWithStatus 401
        | Inr token \<Rightarrow>
            if Valid token then Next (UserID (Claims token))
            else AbortWithStatus 401)"

subsection \<open>auth.go: register and login\<close>

text \<open>
  Both return their result and the store after their statements. An error returned by
  \<open>hashPassword\<close> ends \<open>register\<close> in \<^verbatim>\<open>log.Fatal\<close>; a panic of the key
  derivation passes through \<open>register\<close> and \<open>login\<close> as it is.
\<close>

fun is_panic :: "error \<Rightarrow> bool" where
  "is_panic (Panic msg) = True"
| "is_panic e = False"

definition register ::
  "kdf \<Rightarrow> rand_reader \<Rightarrow> jwt_lib \<Rightarrow> environ \<Rightarrow> int \<Rightarrow> User \<Rightarrow> DB \<Rightarrow> (error + AuthResponse) \<times> DB" where
  "register IDKey rnd lib env now user db =
     (case hashPassword IDKey rnd (Password user)
             \<lparr>memory = 64 * 1024, iterations = 3, parallelism = 2, saltLength = 16, keyLength = 32\<rparr> of
        Inl err \<Rightarrow> if is_panic err then (Inl err, db) else (Inl (Fatal err), db)
      | Inr hash \<Rightarrow>
          let user = user\<lparr>Password := hash\<rparr> in
          (case Create user db of
             (Inl resError, db') \<Rightarrow>
               if Contains (db_Error resError) ''UNIQUE''
               then (Inl (New ''User already exists''), db')
               else (Inl (New ''unknown error''), db')
           | (Inr user, db') \<Rightarrow>
               if ID user = 0 then (Inl (New ''failed to get user id, try login''), db')
               else
                 (case signJWT lib env now user of
                    Inl err \<Rightarrow> (Inl (New ''failed to get auth token''), db')
                  | Inr token \<Rightarrow> (Inr \<lparr>Token = token\<rparr>, db'))))"

definition login ::
  "kdf \<Rightarrow> jwt_lib \<Rightarrow> environ \<Rightarrow> int \<Rightarrow> User \<Rightarrow> DB \<Rightarrow> (error + AuthResponse) \<times> DB" where
  "login IDKey lib env now user db =
     (case Take (\<lambda>r. Username r = Username user \<and> Type r = 0) db of
        (Inl resError, db') \<Rightarrow> (Inl (New ''User does not exist''), db')
      | (Inr dbUser, db') \<Rightarrow>
          (case compareHash IDKey (Password user) (Password dbUser) of
             Inl err \<Rightarrow>
               if is_panic err then (Inl err, db') else (Inl (New ''failed to login''), db')
           | Inr match \<Rightarrow>
               if \<not> match then (Inl (New ''incorrect details''), db')
               else
                 (case signJWT lib env now dbUser of
                    Inl err \<Rightarrow> (Inl (New ''failed to get auth token''), db')
                  | Inr token \<Rightarrow> (Inr \<lparr>Token = token\<rparr>, db'))))"

subsection \<open>auth.go: loginJellyfin\<close>

text \<open>
  The calls into \<^verbatim>\<open>net/url\<close>, \<^verbatim>\<open>encoding/json\<close> and \<^verbatim>\<open>net/http\<close> are the
  parameter \<open>net_lib\<close>; \<open>ReadAll\<close> of a response is the result of reading its body.
  \<open>loginJellyfin\<close> returns its result, the store, and the requests it sent.

  The function is written in three parts: the check of \<open>JELLYFIN_HOST\<close> (lines
  180 to 184, in \<open>loginJellyfin\<close>), the exchange with the provider (lines 186 to 231,
  \<open>authenticateByName\<close>) and the lookup or creation of the user with the token (lines
  233 to 258, \<open>resolveJellyfinUser\<close>). Where the creation fails, line 245 calls
  \<^verbatim>\<open>err.Error()\<close> on the error of the earlier JSON decoding, which is nil there: the
  call panics and the return of line 246 is never reached.
\<close>

record JellyfinAuthResponse =
  Id :: string
  Name :: string

record Request =
  Method :: string
  URL :: string
  Body :: "byte list"
  Headers :: "(string \<times> string) list"

record Response =
  StatusCode :: int
  ReadAll :: "error + byte list"

record net_lib =
  url_Parse :: "string \<Rightarrow> error + string"
  json_Marshal :: "string \<times> string \<Rightarrow> error + byte list"
  http_NewRequest :: "string \<Rightarrow> string \<Rightarrow> byte list \<Rightarrow> error + Request"
  client_Do :: "Request \<Rightarrow> error + Response"
  json_Unmarshal :: "byte list \<Rightarrow> error + JellyfinAuthResponse"

definition dq :: char where
  "dq = CHR 0x22"

definition authenticateByName ::
  "net_lib \<Rightarrow> string \<Rightarrow> User \<Rightarrow> (error + JellyfinAuthResponse) \<times> Request list" where
  "authenticateByName net jellyfinHost user =
     (case url_Parse net (jellyfinHost @ ''/Users/AuthenticateByName'') of
        Inl err \<Rightarrow> (Inl (New ''failed to parse api uri''), [])
      | Inr base \<Rightarrow>
        case json_Marshal net (Username user, Password user) of
          Inl err \<Rightarrow> (Inl (New ''failed to marshal json''), [])
        | Inr usrJSON \<Rightarrow>
        case http_NewRequest net ''POST'' base usrJSON of
          Inl err \<Rightarrow> (Inl (New ''request failed''), [])
        | Inr req0 \<Rightarrow>
        let req = req0\<lparr>Headers := Headers req0 @
                    [(''Content-Type'', ''application/json''),
                     (''X-Emby-Authorization'',
                      ''MediaBrowser Client='' @ [dq] @ ''Watcharr'' @ [dq] @ '', Device='' @ [dq]
                        @ ''HTTP'' @ [dq] @ '', DeviceId='' @ [dq] @ ''WatcharrFor'' @ Username user
                        @ [dq] @ '', Version='' @ [dq] @ ''10.8.0'' @ [dq])]\<rparr> in
        case client_Do net req of
          Inl err \<Rightarrow> (Inl (New ''request failed''), [req])
        | Inr res \<Rightarrow>
        case ReadAll res of
          Inl err \<Rightarrow> (Inl err, [req])
        | Inr body \<Rightarrow>
        if StatusCode res \<noteq> 200 then (Inl (New ''incorrect details''), [req])
        else
          case json_Unmarshal net body of
            Inl err \<Rightarrow> (Inl (New ''failed to process response''), [req])
          | Inr resp \<Rightarrow>
              if Id resp = [] then (Inl (New ''jellyfin returned empty user id''), [req])
              else (Inr resp, [req]))"

definition resolveJellyfinUser ::
  "jwt_lib \<Rightarrow> environ \<Rightarrow> int \<Rightarrow> JellyfinAuthResponse \<Rightarrow> DB \<Rightarrow> (error + AuthResponse) \<times> DB" where
  "resolveJellyfinUser lib env now resp db =
     (let finish = (\<lambda>dbUser db'.
            case signJWT lib env now dbUser of
              Inl err \<Rightarrow> (Inl (New ''failed to get auth token''), db')
            | Inr token \<Rightarrow> (Inr \<lparr>Token = token\<rparr>, db'))
      in
      case Take (\<lambda>r. ThirdPartyID r = Id resp) db of
        (Inl ErrRecordNotFound, db') \<Rightarrow>
          let dbUser = \<lparr>ID = 0, Username = Name resp, Password = [], Type = JELLYFIN_USER,
                        ThirdPartyID = Id resp\<rparr> in
          (case Create dbUser db' of
             (Inl dbResError, db'') \<Rightarrow> (Inl (Panic ''nil pointer dereference''), db'')
           | (Inr dbUser, db'') \<Rightarrow> finish dbUser db'')
      | (Inl dbResError, db') \<Rightarrow> (Inl (New ''error locating user in db''), db')
      | (Inr dbUser, db') \<Rightarrow> finish dbUser db')"

definition loginJellyfin ::
  "net_lib \<Rightarrow> jwt_lib \<Rightarrow> environ \<Rightarrow> int \<Rightarrow> User \<Rightarrow> DB \<Rightarrow> (error + AuthResponse) \<times> DB \<times> Request list" where
  "loginJellyfin net lib env now user db =
     (let jellyfinHost = Getenv env ''JELLYFIN_HOST'' in
      if jellyfinHost = [] then (Inl (New ''jellyfin login not enabled''), db, [])
      else
        case authenticateByName net jellyfinHost user of
          (Inl err, sent) \<Rightarrow> (Inl err, db, sent)
        | (Inr resp, sent) \<Rightarrow>
            (case resolveJellyfinUser lib env now resp db of
               (res, db') \<Rightarrow> (res, db', sent)))"

subsection \<open>Notions used in the statements\<close>

text \<open>
  \<open>std_params\<close> are the parameters \<open>register\<close> passes to \<open>hashPassword\<close>;
  \<open>encoded_hash\<close> is the string \<open>hashPassword\<close> formats from a salt and a key;
  \<open>issued_claims\<close> are the claims \<open>signJWT\<close> writes; \<open>json_roundtrip\<close> says that
  the JSON codec decodes the HS256 header and the given claims as it encoded them;
  \<open>new_jellyfin_user\<close> is the row \<open>loginJellyfin\<close> creates; \<open>distinct_ThirdPartyIDs\<close>
  says that no two rows share a non-empty third-party ID; \<open>signing_input\<close> is the
  signing string of the token \<open>signJWT\<close> builds, as bytes, and \<open>issued_tag\<close> the
  MAC of that string under the \<open>JWT_SECRET\<close> of an environment.
\<close>

definition encoded_hash :: "ArgonParams \<Rightarrow> byte list \<Rightarrow> byte list \<Rightarrow> string" where
  "encoded_hash p salt hash =
     ''$argon2id$v=19$m='' @ dec (unat (memory p)) @ '',t='' @ dec (unat (iterations p)) @
     '',p='' @ dec (unat (parallelism p)) @ ''$'' @ EncodeToString RawStdEncoding salt @
     ''$'' @ EncodeToString RawStdEncoding hash"

definition std_params :: ArgonParams where
  "std_params = \<lparr>memory = 64 * 1024, iterations = 3, parallelism = 2, saltLength = 16, keyLength = 32\<rparr>"

definition distinct_ThirdPartyIDs :: "User list \<Rightarrow> bool" where
  "distinct_ThirdPartyIDs rows \<longleftrightarrow>
     distinct (map ThirdPartyID (filter (\<lambda>r. ThirdPartyID r \<noteq> []) rows))"

definition new_jellyfin_user :: "JellyfinAuthResponse \<Rightarrow> DB \<Rightarrow> User" where
  "new_jellyfin_user resp db =
     \<lparr>ID = nextID db, Username = Name resp, Password = [], Type = JELLYFIN_USER,
      ThirdPartyID = Id resp\<rparr>"

definition issued_claims :: "User \<Rightarrow> int \<Rightarrow> TokenClaims" where
  "issued_claims user now =
     \<lparr>UserID = ID user, Username' = Username user, Issuer = ''watcharr'',
      IssuedAt = Some now, ExpiresAt = None, NotBefore = None\<rparr>"

definition json_roundtrip :: "jwt_lib \<Rightarrow> TokenClaims \<Rightarrow> bool" where
  "json_roundtrip lib c \<longleftrightarrow>
     (\<exists>hdr. unmarshal_header lib (marshal_header lib [(''typ'', ''JWT''), (''alg'', ''HS256'')]) = Inr hdr \<and>
            map_of hdr ''alg'' = Some ''HS256'') \<and>
     unmarshal_claims lib (marshal_claims lib c) = Inr c"

definition signing_input :: "jwt_lib \<Rightarrow> User \<Rightarrow> int \<Rightarrow> byte list" where
  "signing_input lib user now =
     bytes_of (SigningString lib (NewWithClaims ''HS256'' (issued_claims user now)))"

definition issued_tag :: "jwt_lib \<Rightarrow> environ \<Rightarrow> User \<Rightarrow> int \<Rightarrow> byte list" where
  "issued_tag lib env user now =
     hmac_sha256 lib (bytes_of (Getenv env ''JWT_SECRET'')) (signing_input lib user now)"

section \<open>Sample instances\<close>

text \<open>
  Small executable instances of the parameters, and small stores, at which the theorems
  below are instantiated. \<open>hmac_jwt\<close> is \<open>sample_jwt\<close> with HMAC-SHA256 as its MAC.
  The secret of \<open>long_env\<close> is 65 times the letter a; the secret of \<open>digest_env\<close>
  is the SHA-256 digest of that string.
\<close>

definition sample_IDKey :: kdf where
  "sample_IDKey pw salt t m par k = Inr (take (unat k) (pw @ salt @ replicate (unat k) 0))"

definition string_of :: "byte list \<Rightarrow> string" where
  "string_of bs = map (\<lambda>b. char_of (unat b)) bs"

definition sample_jwt :: jwt_lib where
  "sample_jwt =
     \<lparr>hmac_sha256 = (\<lambda>key msg. key @ [0] @ msg),
      marshal_header = (\<lambda>h. bytes_of (case map_of h ''alg'' of Some a \<Rightarrow> a | None \<Rightarrow> [])),
      unmarshal_header = (\<lambda>bs. Inr [(''typ'', ''JWT''), (''alg'', string_of bs)]),
      marshal_claims = (\<lambda>c. word_of_nat (UserID c) # bytes_of (Username' c)),
      unmarshal_claims = (\<lambda>bs. case bs of
          [] \<Rightarrow> Inl (New ''unexpected end of JSON input'')
        | b # bs' \<Rightarrow> Inr \<lparr>UserID = unat b, Username' = string_of bs', Issuer = ''watcharr'',
                          IssuedAt = Some 0, ExpiresAt = None, NotBefore = None\<rparr>),
      other_methods = (\<lambda>alg. None)\<rparr>"

definition sample_env :: environ where
  "sample_env key = (if key = ''JWT_SECRET'' then ''s3cret'' else [])"

definition hmac_jwt :: jwt_lib where
  "hmac_jwt = sample_jwt\<lparr>hmac_sha256 := HMAC_SHA256\<rparr>"

definition other_env :: environ where
  "other_env key = (if key = ''JWT_SECRET'' then ''other'' else [])"

definition long_env :: environ where
  "long_env key = (if key = ''JWT_SECRET'' then replicate 65 (CHR ''a'') else [])"

definition digest_env :: environ where
  "digest_env key =
     (if key = ''JWT_SECRET'' then
        [CHR 0x63, CHR 0x53, CHR 0x61, CHR 0xC4, CHR 0x8B, CHR 0xB9, CHR 0xEA, CHR 0xB1,
         CHR 0x41, CHR 0x98, CHR 0xE7, CHR 0x6E, CHR 0xA8, CHR 0xAB, CHR 0x7F, CHR 0x1A,
         CHR 0x41, CHR 0x68, CHR 0x5D, CHR 0x6A, CHR 0xD6, CHR 0x2A, CHR 0xA9, CHR 0x14,
         CHR 0x6D, CHR 0x30, CHR 0x1D, CHR 0x4F, CHR 0x17, CHR 0xEB, CHR 0x0A, CHR 0xE0]
      else [])"

definition sample_db :: DB where
  "sample_db =
     \<lparr>users = [\<lparr>ID = 1, Username = ''bob'', Password = ''$argon2id$v=19$m=8,t=1,p=1$Bwc$cHcHBw'',
                 Type = 0, ThirdPartyID = []\<rparr>],
      nextID = 2, faults = []\<rparr>"

definition sample_net :: "string \<Rightarrow> string \<Rightarrow> net_lib" where
  "sample_net uid name =
     \<lparr>url_Parse = (\<lambda>u. Inr u),
      json_Marshal = (\<lambda>(u, p). Inr (bytes_of (u @ '':'' @ p))),
      http_NewRequest = (\<lambda>m u b. Inr \<lparr>Method = m, URL = u, Body = b, Headers = []\<rparr>),
      client_Do = (\<lambda>req. Inr \<lparr>StatusCode = 200, ReadAll = Inr (Body req)\<rparr>),
      json_Unmarshal = (\<lambda>b. Inr \<lparr>Id = uid, Name = name\<rparr>)\<rparr>"

definition jellyfin_env :: environ where
  "jellyfin_env key =
     (if key = ''JWT_SECRET'' then ''s3cret''
      else if key = ''JELLYFIN_HOST'' then ''http://jf'' else [])"

section \<open>Properties\<close>

lemma and63: "(x::nat) AND 63 = x mod 64"
  using take_bit_eq_mask[of 6 x] by (simp add: mask_eq_exp_minus_1 take_bit_eq_mod)

lemma bit_lt: "bit (y::nat) k \<Longrightarrow> y < 2 ^ n \<Longrightarrow> k < n"
  by (metis bit_take_bit_iff take_bit_nat_eq_self)

lemma or_plus: "y < 2 ^ n \<Longrightarrow> push_bit n x OR y = x * 2 ^ n + (y::nat)"
proof -
  assume "y < 2 ^ n"
  then have "push_bit n x + y = push_bit n x OR y"
    by (intro disjunctive_add) (auto simp: bit_simps dest: bit_lt)
  then show ?thesis by (simp add: push_bit_eq_mult)
qed

lemma sextet:
  "drop_bit 18 (v::nat) AND 63 = v div 262144 mod 64"
  "drop_bit 12 v AND 63 = v div 4096 mod 64"
  "drop_bit 6 v AND 63 = v div 64 mod 64"
  by (simp_all add: and63 drop_bit_eq_div)

lemma val_bytes:
  fixes a b c :: nat
  assumes "a < 256" "b < 256" "c < 256"
  shows "push_bit 16 a OR push_bit 8 b OR c = a * 65536 + b * 256 + c"
proof -
  have 1: "push_bit 8 b OR c = b * 256 + c"
    using or_plus[of c 8 b] assms by simp
  have 2: "push_bit 16 a OR (b * 256 + c) = a * 65536 + (b * 256 + c)"
    using or_plus[of "b * 256 + c" 16 a] assms by simp
  show ?thesis by (simp only: or.assoc 1 2 add.assoc)
qed

lemma val_sextets:
  fixes s0 s1 s2 s3 :: nat
  assumes "s0 < 64" "s1 < 64" "s2 < 64" "s3 < 64"
  shows "push_bit 18 s0 OR push_bit 12 s1 OR push_bit 6 s2 OR s3 =
         s0 * 262144 + s1 * 4096 + s2 * 64 + s3"
proof -
  have 1: "push_bit 6 s2 OR s3 = s2 * 64 + s3"
    using or_plus[of s3 6 s2] assms by simp
  have 2: "push_bit 12 s1 OR (s2 * 64 + s3) = s1 * 4096 + (s2 * 64 + s3)"
    using or_plus[of "s2 * 64 + s3" 12 s1] assms by simp
  have 3: "push_bit 18 s0 OR (s1 * 4096 + (s2 * 64 + s3)) = s0 * 262144 + (s1 * 4096 + (s2 * 64 + s3))"
    using or_plus[of "s1 * 4096 + (s2 * 64 + s3)" 18 s0] assms by simp
  show ?thesis by (simp only: or.assoc 1 2 3 add.assoc)
qed

lemma regroup:
  fixes v :: nat
  assumes "v < 16777216"
  shows "(v div 262144 mod 64) * 262144 + (v div 4096 mod 64) * 4096 + (v div 64 mod 64) * 64 + v mod 64 = v"
proof -
  define p where "p = v div 64"
  define q where "q = v div 4096"
  define r where "r = v div 262144"
  have q: "q = p div 64" and r: "r = q div 64"
    by (simp_all add: p_def q_def r_def div_mult2_eq[symmetric])
  have 1: "v = p * 64 + v mod 64" by (simp add: p_def)
  have 2: "p = q * 64 + p mod 64" by (simp add: q)
  have 3: "q = r * 64 + q mod 64" by (simp add: r)
  have 4: "r mod 64 = r" using assms by (simp add: r_def)
  have "r * 262144 + (q mod 64) * 4096 + (p mod 64) * 64 + v mod 64 = v"
    using 1 2 3 by linarith
  then show ?thesis by (simp add: 4 flip: p_def q_def r_def)
qed

lemma bytes_of_val:
  fixes a b c :: nat
  assumes "a < 256" "b < 256" "c < 256"
  shows "(a * 65536 + b * 256 + c) div 65536 mod 256 = a"
    and "(a * 65536 + b * 256 + c) div 256 mod 256 = b"
    and "(a * 65536 + b * 256 + c) mod 256 = c"
proof -
  have e: "a * 65536 + b * 256 + c = (a * 256 + b) * 256 + c" by simp
  have "((a * 256 + b) * 256 + c) mod 256 = c mod 256" by (rule mod_mult_self3)
  then show "(a * 65536 + b * 256 + c) mod 256 = c"
    using assms(3) by (simp only: e mod_less)
  have "((a * 256 + b) * 256 + c) div 256 = (a * 256 + b) + c div 256" by (rule div_mult_self3) simp
  then have d: "(a * 65536 + b * 256 + c) div 256 = a * 256 + b"
    using assms(3) by (simp only: e div_less add_0_right)
  have "(a * 256 + b) mod 256 = b mod 256" by (rule mod_mult_self3)
  then show "(a * 65536 + b * 256 + c) div 256 mod 256 = b"
    using assms(2) by (simp only: d mod_less)
  have "(a * 256 + b) div 256 = a + b div 256" by (rule div_mult_self3) simp
  then have d2: "(a * 256 + b) div 256 = a"
    using assms(2) by (simp only: div_less add_0_right)
  have "(a * 65536 + b * 256 + c) div 65536 = (a * 65536 + b * 256 + c) div 256 div 256"
    using div_mult2_eq[of "a * 65536 + b * 256 + c" 256 256] by simp
  then show "(a * 65536 + b * 256 + c) div 65536 mod 256 = a"
    using assms(1) by (simp only: d d2 mod_less)
qed

lemma to_byte_eq: "x mod 256 = unat w \<Longrightarrow> to_byte x = w"
  by (simp add: to_byte_def word_unat_eq_iff unat_of_nat)

lemma group_roundtrip:
  fixes b0 b1 b2 :: byte
  defines "v \<equiv> push_bit 16 (unat b0) OR push_bit 8 (unat b1) OR unat b2"
  shows "push_bit 18 (drop_bit 18 v AND 63) OR push_bit 12 (drop_bit 12 v AND 63)
           OR push_bit 6 (drop_bit 6 v AND 63) OR (v AND 63) = v"
    and "to_byte (drop_bit 16 v) = b0"
    and "to_byte (drop_bit 8 v) = b1"
    and "to_byte v = b2"
proof -
  have lt: "unat b0 < 256" "unat b1 < 256" "unat b2 < 256"
    using unsigned_less[of b0] unsigned_less[of b1] unsigned_less[of b2] by simp_all
  have v: "v = unat b0 * 65536 + unat b1 * 256 + unat b2"
    unfolding v_def by (rule val_bytes[OF lt])
  have vlt: "v < 16777216" using lt unfolding v by linarith
  have s: "v div 262144 mod 64 < 64" "v div 4096 mod 64 < 64" "v div 64 mod 64 < 64" "v mod 64 < 64"
    by simp_all
  show "push_bit 18 (drop_bit 18 v AND 63) OR push_bit 12 (drop_bit 12 v AND 63)
           OR push_bit 6 (drop_bit 6 v AND 63) OR (v AND 63) = v"
    unfolding sextet by (simp only: and63 val_sextets[OF s] regroup[OF vlt])
  show "to_byte (drop_bit 16 v) = b0"
    by (rule to_byte_eq) (simp add: drop_bit_eq_div v bytes_of_val[OF lt])
  show "to_byte (drop_bit 8 v) = b1"
    by (rule to_byte_eq) (simp add: drop_bit_eq_div v bytes_of_val[OF lt])
  show "to_byte v = b2"
    by (rule to_byte_eq) (simp add: v bytes_of_val[OF lt])
qed

lemma low_sextet_zero:
  "(push_bit 16 (a::nat) OR push_bit 8 b) AND 63 = 0"
  "push_bit 16 (a::nat) AND 63 = 0"
  "drop_bit 6 (push_bit 16 (a::nat)) AND 63 = 0"
  by (rule bit_eqI; auto simp: bit_simps and63 simp flip: take_bit_eq_mod[of 6, simplified])+

lemma indexByte_nth: "distinct xs \<Longrightarrow> i < length xs \<Longrightarrow> indexByte xs (xs ! i) = i"
proof (induction xs arbitrary: i)
  case Nil
  then show ?case by simp
next
  case (Cons x xs)
  then show ?case by (cases i) auto
qed

lemma decodeMap_nth:
  "wellformed_alphabet enc \<Longrightarrow> i < 64 \<Longrightarrow> decodeMap enc (encode enc ! i) = i"
  by (simp add: wellformed_alphabet_def decodeMap_def indexByte_nth)

lemma sextet_lt: "(x::nat) AND 63 < 64"
  by (simp add: and63)

lemma EncodeToString_alphabet:
  "wellformed_alphabet enc \<Longrightarrow> set (EncodeToString enc bs) \<subseteq> set (encode enc)"
  by (induction enc bs rule: EncodeToString.induct)
     (simp_all add: Let_def wellformed_alphabet_def sextet_lt)

lemma decodeQuanta_group:
  assumes wf: "wellformed_alphabet enc"
    and v: "v = push_bit 16 (unat b0) OR push_bit 8 (unat b1) OR unat b2"
  shows "decodeQuanta st (map (decodeMap enc)
           ([encode enc ! (drop_bit 18 v AND 63), encode enc ! (drop_bit 12 v AND 63),
             encode enc ! (drop_bit 6 v AND 63), encode enc ! (v AND 63)] @ rest)) =
         (case decodeQuanta st (map (decodeMap enc) rest) of
            Inl e \<Rightarrow> Inl e | Inr out \<Rightarrow> Inr (b0 # b1 # b2 # out))"
proof -
  define s0 s1 s2 s3 where s: "s0 = drop_bit 18 v AND 63" "s1 = drop_bit 12 v AND 63"
    "s2 = drop_bit 6 v AND 63" "s3 = v AND 63"
  have lt: "s0 < 64" "s1 < 64" "s2 < 64" "s3 < 64"
    unfolding s by (rule sextet_lt)+
  have val: "push_bit 18 s0 OR push_bit 12 s1 OR push_bit 6 s2 OR s3 = v"
    unfolding s v by (rule group_roundtrip(1))
  have b: "to_byte (drop_bit 16 v) = b0" "to_byte (drop_bit 8 v) = b1" "to_byte v = b2"
    unfolding v by (rule group_roundtrip(2-4))+
  have "decodeQuanta st (map (decodeMap enc)
           ([encode enc ! s0, encode enc ! s1, encode enc ! s2, encode enc ! s3] @ rest)) =
        decodeQuanta st (s0 # s1 # s2 # s3 # map (decodeMap enc) rest)"
    by (simp add: decodeMap_nth[OF wf] lt)
  also have "\<dots> = (case decodeQuanta st (map (decodeMap enc) rest) of
            Inl e \<Rightarrow> Inl e | Inr out \<Rightarrow> Inr (b0 # b1 # b2 # out))"
    by (simp only: decodeQuanta.simps Let_def val b)
  finally show ?thesis unfolding s .
qed

lemma decodeQuanta_tail2:
  assumes wf: "wellformed_alphabet enc"
    and v: "v = push_bit 16 (unat b0) OR push_bit 8 (unat b1)"
  shows "decodeQuanta st (map (decodeMap enc)
           [encode enc ! (drop_bit 18 v AND 63), encode enc ! (drop_bit 12 v AND 63),
            encode enc ! (drop_bit 6 v AND 63)]) = Inr [b0, b1]"
proof -
  define s0 s1 s2 where s: "s0 = drop_bit 18 v AND 63" "s1 = drop_bit 12 v AND 63"
    "s2 = drop_bit 6 v AND 63"
  have v': "v = push_bit 16 (unat b0) OR push_bit 8 (unat b1) OR unat (0::byte)"
    unfolding v by simp
  have lt: "s0 < 64" "s1 < 64" "s2 < 64"
    unfolding s by (rule sextet_lt)+
  have z: "v AND 63 = 0" unfolding v by (rule low_sextet_zero(1))
  have "push_bit 18 s0 OR push_bit 12 s1 OR push_bit 6 s2 OR (v AND 63) = v"
    unfolding s v' by (rule group_roundtrip(1))
  then have val: "push_bit 18 s0 OR push_bit 12 s1 OR push_bit 6 s2 = v"
    unfolding z by simp
  have b: "to_byte (drop_bit 16 v) = b0" "to_byte (drop_bit 8 v) = b1" "to_byte v = 0"
    unfolding v' by (rule group_roundtrip(2-4))+
  have "decodeQuanta st (map (decodeMap enc) [encode enc ! s0, encode enc ! s1, encode enc ! s2]) =
        decodeQuanta st [s0, s1, s2]"
    by (simp add: decodeMap_nth[OF wf] lt)
  also have "\<dots> = Inr [b0, b1]"
    by (simp only: decodeQuanta.simps Let_def val b) simp
  finally show ?thesis unfolding s .
qed

lemma decodeQuanta_tail1:
  assumes wf: "wellformed_alphabet enc"
    and v: "v = push_bit 16 (unat b0)"
  shows "decodeQuanta st (map (decodeMap enc)
           [encode enc ! (drop_bit 18 v AND 63), encode enc ! (drop_bit 12 v AND 63)]) = Inr [b0]"
proof -
  define s0 s1 where s: "s0 = drop_bit 18 v AND 63" "s1 = drop_bit 12 v AND 63"
  have v': "v = push_bit 16 (unat b0) OR push_bit 8 (unat (0::byte)) OR unat (0::byte)"
    unfolding v by simp
  have lt: "s0 < 64" "s1 < 64"
    unfolding s by (rule sextet_lt)+
  have z: "v AND 63 = 0" "drop_bit 6 v AND 63 = 0"
    unfolding v by (rule low_sextet_zero(2,3))+
  have "push_bit 18 s0 OR push_bit 12 s1 OR push_bit 6 (drop_bit 6 v AND 63) OR (v AND 63) = v"
    unfolding s v' by (rule group_roundtrip(1))
  then have val: "push_bit 18 s0 OR push_bit 12 s1 = v"
    unfolding z by simp
  have b: "to_byte (drop_bit 16 v) = b0" "to_byte (drop_bit 8 v) = 0" "to_byte v = 0"
    unfolding v' by (rule group_roundtrip(2-4))+
  have "decodeQuanta st (map (decodeMap enc) [encode enc ! s0, encode enc ! s1]) =
        decodeQuanta st [s0, s1]"
    by (simp add: decodeMap_nth[OF wf] lt)
  also have "\<dots> = Inr [b0]"
    by (simp only: decodeQuanta.simps Let_def val b) simp
  finally show ?thesis unfolding s .
qed

lemma decodeQuanta_EncodeToString:
  assumes wf: "wellformed_alphabet enc"
  shows "decodeQuanta st (map (decodeMap enc) (EncodeToString enc bs)) = Inr bs"
  using wf
proof (induction enc bs rule: EncodeToString.induct)
  case (1 enc b0 b1 b2 src)
  then show ?case
    by (simp only: EncodeToString.simps Let_def decodeQuanta_group[OF 1(2) refl]) simp
next
  case (2 enc b0 b1)
  then show ?case
    by (simp only: EncodeToString.simps Let_def decodeQuanta_tail2[OF 2 refl])
next
  case (3 enc b0)
  then show ?case
    by (simp only: EncodeToString.simps Let_def decodeQuanta_tail1[OF 3 refl])
next
  case (4 enc)
  then show ?case by simp
qed

lemma DecodeString_EncodeToString:
  assumes wf: "wellformed_alphabet enc"
  shows "DecodeString enc (EncodeToString enc bs) = Inr bs"
proof -
  have sub: "set (EncodeToString enc bs) \<subseteq> set (encode enc)"
    by (rule EncodeToString_alphabet[OF wf])
  then have f: "filter (\<lambda>c. c \<noteq> CHR 0x0A \<and> c \<noteq> CHR 0x0D) (EncodeToString enc bs) = EncodeToString enc bs"
    using wf by (auto simp: wellformed_alphabet_def filter_id_conv)
  have "list_all (\<lambda>c. decodeMap enc c \<noteq> 255) (EncodeToString enc bs)"
    using sub wf by (auto simp: list_all_iff decodeMap_def wellformed_alphabet_def in_set_conv_nth indexByte_nth)
  then show ?thesis
    by (simp add: DecodeString_def f decodeQuanta_EncodeToString[OF wf])
qed

lemma wellformed_RawStdEncoding: "wellformed_alphabet RawStdEncoding" "wellformed_alphabet (Strict RawStdEncoding)"
  by (simp_all add: wellformed_alphabet_def RawStdEncoding_def Strict_def encodeStd_def)

lemma wellformed_RawURLEncoding: "wellformed_alphabet RawURLEncoding"
  by (simp add: wellformed_alphabet_def RawURLEncoding_def encodeURL_def)

lemma char_of_eq_iff: "char_of (n::nat) = c \<longleftrightarrow> n mod 256 = of_char c"
proof
  assume "char_of n = c"
  then have "of_char (char_of n) = (of_char c :: nat)" by simp
  then show "n mod 256 = of_char c" by (simp only: of_char_of)
next
  assume "n mod 256 = of_char c"
  then have "char_of (n mod 256) = char_of (of_char c :: nat)" by simp
  then show "char_of n = c" by simp
qed

lemma isDigit_char_of: "d < 10 \<Longrightarrow> isDigit (char_of (48 + d :: nat))"
  by (simp add: isDigit_def)

lemma digit_val_char_of: "d < 10 \<Longrightarrow> (of_char (char_of (48 + d :: nat)) :: nat) - 48 = d"
  by simp

lemma dec_digits: "list_all isDigit (dec n)"
proof (induction n rule: dec.induct)
  case (1 n)
  show ?case
  proof (cases "n < 10")
    case True
    then show ?thesis by (subst dec.simps) (simp add: isDigit_char_of)
  next
    case False
    then show ?thesis using 1 by (subst dec.simps) (simp add: isDigit_char_of)
  qed
qed

lemma dec_nonempty: "dec n \<noteq> []"
  by (subst dec.simps) simp

lemma digits_val_append: "digits_val acc (xs @ ys) = digits_val (digits_val acc xs) ys"
  by (induction xs arbitrary: acc) simp_all

lemma digits_val_dec: "digits_val 0 (dec n) = n"
proof (induction n rule: dec.induct)
  case (1 n)
  show ?case
  proof (cases "n < 10")
    case True
    then show ?thesis by (subst dec.simps) simp
  next
    case False
    then have "digits_val 0 (dec (n div 10)) = n div 10" using 1 by simp
    with False show ?thesis
      by (subst dec.simps) (simp add: digits_val_append)
  qed
qed

lemma takeWhile_digits:
  assumes "rest = [] \<or> \<not> isDigit (hd rest)"
  shows "takeWhile isDigit (dec n @ rest) = dec n" "dropWhile isDigit (dec n @ rest) = rest"
proof -
  have a: "\<forall>c \<in> set (dec n). isDigit c" using dec_digits[of n] by (simp add: list_all_iff)
  show "takeWhile isDigit (dec n @ rest) = dec n"
    using assms a by (cases rest) (simp_all add: takeWhile_append2)
  show "dropWhile isDigit (dec n @ rest) = rest"
    using assms a by (cases rest) (simp_all add: dropWhile_append2)
qed

lemma scanNumber_dec:
  assumes "rest = [] \<or> \<not> isDigit (hd rest)"
  shows "scanNumber (dec n @ rest) = Inr (dec n, rest)"
  by (simp add: scanNumber_def takeWhile_digits[OF assms] dec_nonempty)

lemma SkipSpace_digit: "isDigit c \<Longrightarrow> SkipSpace (c # s) = Inr (c # s)"
  by (subst SkipSpace.simps) (auto simp: isDigit_def space_rune_def Let_def split: list.splits)

lemma SkipSpace_dec: "SkipSpace (dec n @ rest) = Inr (dec n @ rest)"
proof -
  obtain c cs where d: "dec n = c # cs" using dec_nonempty[of n] by (cases "dec n") auto
  then have "isDigit c" using dec_digits[of n] by simp
  then show ?thesis unfolding d by (simp add: SkipSpace_digit)
qed

lemma scanUint_dec:
  assumes "rest = [] \<or> \<not> isDigit (hd rest)" and "n < 2 ^ b" and "b \<le> 64"
  shows "scanUint b (dec n @ rest) = Inr (n, rest)"
proof -
  have "(2::nat) ^ b \<le> 2 ^ 64" using assms(3) by (rule power_increasing) simp
  then have "n < 2 ^ 64" using assms(2) by linarith
  then show ?thesis using assms(2)
    by (simp add: scanUint_def SkipSpace_dec scanNumber_dec[OF assms(1)] dec_nonempty digits_val_dec Let_def)
qed

lemma hd_dec_not_sign: "hd (dec n) \<noteq> CHR ''+''" "hd (dec n) \<noteq> CHR ''-''"
proof -
  obtain c cs where d: "dec n = c # cs" using dec_nonempty[of n] by (cases "dec n") auto
  then have "isDigit c" using dec_digits[of n] by simp
  then show "hd (dec n) \<noteq> CHR ''+''" "hd (dec n) \<noteq> CHR ''-''"
    unfolding d by (auto simp: isDigit_def)
qed

lemma scanInt_dec:
  assumes "rest = [] \<or> \<not> isDigit (hd rest)" and "n < 2 ^ 63"
  shows "scanInt 64 (dec n @ rest) = Inr (int n, rest)"
proof -
  have "int n < 2 ^ 63" using assms(2) by (metis of_nat_less_iff of_nat_numeral of_nat_power)
  then show ?thesis
    by (simp add: scanInt_def SkipSpace_dec scanNumber_dec[OF assms(1)] dec_nonempty digits_val_dec Let_def hd_dec_not_sign hd_append)
qed

lemma Split_nosep: "sep \<notin> set s \<Longrightarrow> Split s sep = [s]"
  by (induction s) auto

lemma Split_append: "sep \<notin> set a \<Longrightarrow> Split (a @ sep # b) sep = a # Split b sep"
  by (induction a) auto

lemma Split_nonempty: "Split s sep \<noteq> []"
  by (induction s) (auto split: list.splits)

lemma length_Split: "length (Split s sep) = Suc (count_list s sep)"
  using Split_nonempty[of _ sep] by (induction s) (auto split: list.splits)

lemma dec_no_char: "\<not> isDigit c \<Longrightarrow> c \<notin> set (dec n)"
  using dec_digits[of n] by (auto simp: list_all_iff)

lemma xor_zero_eq: "(a::byte) XOR b = 0 \<longleftrightarrow> a = b"
proof
  assume h: "a XOR b = 0"
  have "a = a XOR (b XOR b)" by simp
  also have "\<dots> = (a XOR b) XOR b" by (simp only: xor.assoc)
  also have "\<dots> = b" unfolding h by simp
  finally show "a = b" .
qed simp

lemma fold_or_xor_zero:
  "fold (\<lambda>(a, b) v. v OR (a XOR b)) ps (v0 :: byte) = 0 \<longleftrightarrow> v0 = 0 \<and> (\<forall>(a, b) \<in> set ps. a = b)"
proof (induction ps arbitrary: v0)
  case Nil
  then show ?case by simp
next
  case (Cons q ps)
  obtain a b where q: "q = (a, b)" by (cases q)
  show ?case unfolding q using Cons[of "v0 OR (a XOR b)"]
    by (simp add: or_eq_0_iff xor_zero_eq conj_ac)
qed

lemma ConstantTimeCompare_iff: "ConstantTimeCompare x y = 1 \<longleftrightarrow> x = y"
proof (cases "length x = length y")
  case True
  then have "(\<forall>(a, b) \<in> set (zip x y). a = b) \<longleftrightarrow> x = y"
    by (induction x y rule: list_induct2) auto
  then show ?thesis using True by (simp add: ConstantTimeCompare_def fold_or_xor_zero)
next
  case False
  then show ?thesis by (auto simp: ConstantTimeCompare_def)
qed

lemma EncodeToString_alphabet_only:
  "encode enc' = encode enc \<Longrightarrow> EncodeToString enc' bs = EncodeToString enc bs"
proof (induction enc bs rule: EncodeToString.induct)
  case (1 enc b0 b1 b2 src)
  then show ?case by (simp only: EncodeToString.simps)
qed (simp_all only: EncodeToString.simps)

lemma DecodeString_Strict_RawStd:
  "DecodeString (Strict RawStdEncoding) (EncodeToString RawStdEncoding bs) = Inr bs"
proof -
  have "EncodeToString RawStdEncoding bs = EncodeToString (Strict RawStdEncoding) bs"
    by (rule EncodeToString_alphabet_only) (simp add: Strict_def)
  then show ?thesis
    by (simp add: DecodeString_EncodeToString[OF wellformed_RawStdEncoding(2)])
qed

lemma dollar_not_base64: "CHR ''$'' \<notin> set (EncodeToString RawStdEncoding bs)"
proof -
  have "CHR ''$'' \<notin> set (encode RawStdEncoding)"
    by (simp add: RawStdEncoding_def encodeStd_def)
  then show ?thesis
    using EncodeToString_alphabet[OF wellformed_RawStdEncoding(1), of bs] by blast
qed

lemma dollar_not_dec: "CHR ''$'' \<notin> set (dec n)"
  by (rule dec_no_char) (simp add: isDigit_def)

lemma comma_not_digit: "\<not> isDigit CHR '',''"
  by (simp add: isDigit_def)

lemma comma_not_dec: "CHR '','' \<notin> set (dec n)"
  by (rule dec_no_char) (simp add: isDigit_def)

lemma Split_six:
  assumes "sep \<notin> set f1" "sep \<notin> set f2" "sep \<notin> set f3" "sep \<notin> set f4" "sep \<notin> set f5"
  shows "Split (sep # f1 @ sep # f2 @ sep # f3 @ sep # f4 @ sep # f5) sep = [[], f1, f2, f3, f4, f5]"
  using assms Split_append[of sep "[]"] by (simp add: Split_append Split_nosep)

lemma Sprintf_encoded:
  "Sprintf ''$argon2id$v=%d$m=%d,t=%d,p=%d$%s$%s''
     [AInt v, AUint32 m, AUint32 t, AUint8 p, AString s, AString h] =
   CHR ''$'' # ''argon2id'' @ CHR ''$'' # (''v='' @ fmt_int v) @ CHR ''$'' #
     (''m='' @ dec (unat m) @ '',t='' @ dec (unat t) @ '',p='' @ dec (unat p)) @ CHR ''$'' # s @ CHR ''$'' # h"
  by simp

lemma Sscanf_version: "n < 2 ^ 63 \<Longrightarrow> Sscanf (''v='' @ dec n) ''v=%d'' [PInt] = Inr [SInt (int n)]"
  using scanInt_dec[of "[]" n] SkipSpace_dec[of n "[]"]
  by (simp add: Sscanf_def plain_format_char_def)

lemma Sscanf_params:
  "Sscanf (''m='' @ dec (unat (m :: 32 word)) @ '',t='' @ dec (unat (t :: 32 word)) @ '',p='' @ dec (unat (p :: 8 word)))
     ''m=%d,t=%d,p=%d'' [PUint32, PUint32, PUint8] = Inr [SUint32 m, SUint32 t, SUint8 p]"
proof -
  have m: "unat m < 2 ^ 32" and t: "unat t < 2 ^ 32" and p: "unat p < 2 ^ 8"
    using unsigned_less[of m] unsigned_less[of t] unsigned_less[of p] by simp_all
  have 1: "scanUint 32 (dec (unat m) @ '',t='' @ dec (unat t) @ '',p='' @ dec (unat p)) =
           Inr (unat m, '',t='' @ dec (unat t) @ '',p='' @ dec (unat p))"
    by (rule scanUint_dec[OF _ m]) (simp_all add: comma_not_digit)
  have 2: "scanUint 32 (dec (unat t) @ '',p='' @ dec (unat p)) = Inr (unat t, '',p='' @ dec (unat p))"
    by (rule scanUint_dec[OF _ t]) (simp_all add: comma_not_digit)
  have 3: "scanUint 8 (dec (unat p)) = Inr (unat p, [])"
    using scanUint_dec[of "[]" "unat p" 8] p by simp
  show ?thesis
    using 1 2 3 SkipSpace_dec[of "unat p" "[]"]
    by (simp add: Sscanf_def plain_format_char_def SkipSpace_dec)
qed

lemma dec_19: "dec 19 = ''19''"
  by (simp add: dec.simps char_of_eq_iff)

lemma hashPassword_Inr:
  assumes "hashPassword IDKey rnd password p = Inr h"
  shows "\<exists>salt hash. generateRandomBytes rnd (saltLength p) = Inr salt \<and>
           IDKey (bytes_of password) salt (iterations p) (memory p) (parallelism p) (keyLength p) = Inr hash \<and>
           h = encoded_hash p salt hash"
  using assms
  by (auto simp: hashPassword_def Let_def encoded_hash_def fmt_int_def argon2_Version_def dec_19
           split: sum.splits)


lemma decodeHash_encoded_hash:
  "decodeHash (encoded_hash p salt hash) =
     Inr (\<lparr>memory = memory p, iterations = iterations p, parallelism = parallelism p,
           saltLength = word_of_nat (length salt), keyLength = word_of_nat (length hash)\<rparr>, salt, hash)"
proof -
  define f2 where "f2 = ''v='' @ dec 19"
  define f3 where "f3 = ''m='' @ dec (unat (memory p)) @ '',t='' @ dec (unat (iterations p)) @ '',p='' @ dec (unat (parallelism p))"
  have e: "encoded_hash p salt hash =
      CHR ''$'' # ''argon2id'' @ CHR ''$'' # f2 @ CHR ''$'' # f3 @ CHR ''$'' #
        EncodeToString RawStdEncoding salt @ CHR ''$'' # EncodeToString RawStdEncoding hash"
    by (simp add: encoded_hash_def f2_def f3_def dec_19)
  have vals: "Split (encoded_hash p salt hash) (CHR ''$'') =
      [[], ''argon2id'', f2, f3, EncodeToString RawStdEncoding salt, EncodeToString RawStdEncoding hash]"
    unfolding e
    by (rule Split_six) (simp_all add: f2_def f3_def dollar_not_dec dollar_not_base64)
  have s2: "Sscanf f2 ''v=%d'' [PInt] = Inr [SInt 19]"
    unfolding f2_def using Sscanf_version[of 19] by simp
  have s3: "Sscanf f3 ''m=%d,t=%d,p=%d'' [PUint32, PUint32, PUint8] =
            Inr [SUint32 (memory p), SUint32 (iterations p), SUint8 (parallelism p)]"
    unfolding f3_def by (rule Sscanf_params)
  show ?thesis
    by (simp add: decodeHash_def Let_def vals s2 s3 argon2_Version_def DecodeString_Strict_RawStd)
qed

text \<open>
  Claim C1. For every password and every run of \<open>hashPassword\<close> that returns an
  encoded hash (whatever the parameters and the random salt), \<open>compareHash\<close> of the
  same password against that hash returns \<open>(true, nil)\<close>. The key derivation
  function is a parameter; the only fact used about it is that a returned key has the
  requested length.
\<close>

theorem compareHash_hashPassword:
  assumes kdf_len: "\<And>pw s t m par k key. IDKey pw s t m par k = Inr key \<Longrightarrow> length key = unat k"
    and h: "hashPassword IDKey rnd password p = Inr h"
  shows "compareHash IDKey password h = Inr True"
proof -
  from hashPassword_Inr[OF h] obtain salt hash where
    hash: "IDKey (bytes_of password) salt (iterations p) (memory p) (parallelism p) (keyLength p) = Inr hash" and
    enc: "h = encoded_hash p salt hash"
    by blast
  have len: "length hash = unat (keyLength p)" by (rule kdf_len[OF hash])
  show ?thesis
    by (simp add: compareHash_def enc decodeHash_encoded_hash len hash ConstantTimeCompare_iff)
qed

lemma w_salt: "generateRandomBytes (Some (\<lambda>i. 7)) 2 = Inr [7, 7]"
  by (simp add: generateRandomBytes_def upt_rec)

lemma w_key: "sample_IDKey (bytes_of ''pw'') [7, 7] 1 8 1 4 = Inr [112, 119, 7, 7]"
  by (simp add: sample_IDKey_def bytes_of_def)

lemma w_e1: "EncodeToString RawStdEncoding [7, 7] = ''Bwc''"
  by (simp add: RawStdEncoding_def encodeStd_def)

lemma w_e2: "EncodeToString RawStdEncoding [112, 119, 7, 7] = ''cHcHBw''"
  by (simp add: RawStdEncoding_def encodeStd_def)

lemma w_dec: "dec 19 = ''19''" "dec 8 = ''8''" "dec (Suc 0) = ''1''"
  by (simp_all add: dec.simps char_of_eq_iff)

lemma w_h: "hashPassword sample_IDKey (Some (\<lambda>i. 7)) ''pw''
     \<lparr>memory = 8, iterations = 1, parallelism = 1, saltLength = 2, keyLength = 4\<rparr>
   = Inr ''$argon2id$v=19$m=8,t=1,p=1$Bwc$cHcHBw''"
  by (simp add: hashPassword_def w_salt w_key w_dec fmt_int_def argon2_Version_def
        RawStdEncoding_def encodeStd_def)

theorem compareHash_hashPassword_witness:
  "hashPassword sample_IDKey (Some (\<lambda>i. 7)) ''pw''
     \<lparr>memory = 8, iterations = 1, parallelism = 1, saltLength = 2, keyLength = 4\<rparr>
   = Inr ''$argon2id$v=19$m=8,t=1,p=1$Bwc$cHcHBw'' \<and>
   compareHash sample_IDKey ''pw'' ''$argon2id$v=19$m=8,t=1,p=1$Bwc$cHcHBw'' = Inr True"
proof -
  have len: "\<And>pw s t m par k key. sample_IDKey pw s t m par k = Inr key \<Longrightarrow> length key = unat k"
    by (auto simp: sample_IDKey_def)
  show ?thesis
    using w_h compareHash_hashPassword[of sample_IDKey, OF len w_h] by simp
qed

lemma register_alt:
  "register IDKey rnd lib env now user db =
     (case hashPassword IDKey rnd (Password user) std_params of
        Inl err \<Rightarrow> if is_panic err then (Inl err, db) else (Inl (Fatal err), db)
      | Inr hash \<Rightarrow>
          (case Create (user\<lparr>Password := hash\<rparr>) db of
             (Inl resError, db') \<Rightarrow>
               if Contains (db_Error resError) ''UNIQUE''
               then (Inl (New ''User already exists''), db')
               else (Inl (New ''unknown error''), db')
           | (Inr user', db') \<Rightarrow>
               if ID user' = 0 then (Inl (New ''failed to get user id, try login''), db')
               else
                 (case signJWT lib env now user' of
                    Inl err \<Rightarrow> (Inl (New ''failed to get auth token''), db')
                  | Inr token \<Rightarrow> (Inr \<lparr>Token = token\<rparr>, db'))))"
  by (simp add: register_def std_params_def Let_def split: sum.splits)

lemma Contains_prefix: "prefix sub s \<Longrightarrow> Contains s sub"
  by (cases s) auto

lemma Contains_UNIQUE: "Contains ''UNIQUE constraint failed: users.username, users.type'' ''UNIQUE''"
  by (rule Contains_prefix) simp

lemma Create_cases:
  "Create user db = (r, db') \<Longrightarrow>
     (\<exists>msg. r = Inl (DriverError msg) \<and> users db' = users db \<and> nextID db' = nextID db) \<or>
     (r = Inr (user\<lparr>ID := nextID db\<rparr>) \<and> users db' = users db @ [user\<lparr>ID := nextID db\<rparr>] \<and>
      \<not> list_ex (\<lambda>r. Username r = Username user \<and> Type r = Type user) (users db))"
  by (auto simp: Create_def next_fault_def Let_def split: list.splits option.splits if_splits)

lemma Create_unique:
  assumes "faults db = [] \<or> hd (faults db) = None"
    and "list_ex (\<lambda>r. Username r = Username user \<and> Type r = Type user) (users db)"
  shows "Create user db = (Inl (DriverError ''UNIQUE constraint failed: users.username, users.type''),
                           db\<lparr>faults := tl (faults db)\<rparr>)"
  using assms by (cases "faults db") (auto simp: Create_def next_fault_def)

lemma Create_fault:
  assumes "faults db = Some msg # fs"
  shows "Create user db = (Inl (DriverError msg), db\<lparr>faults := fs\<rparr>)"
  using assms by (simp add: Create_def next_fault_def)

lemma sample_hashPassword: "\<exists>hash. hashPassword sample_IDKey (Some (\<lambda>i. 7)) pw p = Inr hash"
  by (simp add: hashPassword_def generateRandomBytes_def sample_IDKey_def)

lemma signJWT_Inr: "\<exists>tok. signJWT lib env now user = Inr tok"
  by (simp add: signJWT_def SignedString_def Let_def)

text \<open>
  Claim C7, as stated, fails: a create that fails for a reason other than the uniqueness
  constraint on (username, type) does not always give \<open>unknown error\<close>. The code
  tells the failures apart by the word \<open>UNIQUE\<close> in the driver's message
  (\<^verbatim>\<open>auth.go\<close>, line 131), and the driver uses that word for every unique index,
  the primary key among them. Here the users table is empty, so no row holds the pair
  (bob, 0), the create fails with \<open>UNIQUE constraint failed: users.id\<close>, and
  \<open>register\<close> returns \<open>User already exists\<close>.
\<close>

theorem register_other_failure_counterexample:
  "\<not> list_ex (\<lambda>r. Username r = ''bob'' \<and> Type r = 0)
       (users \<lparr>users = [], nextID = 1, faults = [Some ''UNIQUE constraint failed: users.id'']\<rparr>) \<and>
   register sample_IDKey (Some (\<lambda>i. 7)) sample_jwt sample_env 0
     \<lparr>ID = 0, Username = ''bob'', Password = ''pw'', Type = 0, ThirdPartyID = []\<rparr>
     \<lparr>users = [], nextID = 1, faults = [Some ''UNIQUE constraint failed: users.id'']\<rparr>
   = (Inl (New ''User already exists''), \<lparr>users = [], nextID = 1, faults = []\<rparr>) \<and>
   New ''User already exists'' \<noteq> New ''unknown error''"
proof -
  obtain hash where h: "hashPassword sample_IDKey (Some (\<lambda>i. 7)) ''pw'' std_params = Inr hash"
    using sample_hashPassword by blast
  have c: "Contains ''UNIQUE constraint failed: users.id'' ''UNIQUE''"
    by (rule Contains_prefix) simp
  have "Create (\<lparr>ID = 0, Username = ''bob'', Password = ''pw'', Type = 0, ThirdPartyID = []\<rparr>
                  \<lparr>Password := hash\<rparr>)
          \<lparr>users = [], nextID = 1, faults = [Some ''UNIQUE constraint failed: users.id'']\<rparr>
        = (Inl (DriverError ''UNIQUE constraint failed: users.id''),
           \<lparr>users = [], nextID = 1, faults = []\<rparr>)"
    by (simp add: Create_def next_fault_def)
  then show ?thesis
    using h c by (simp add: register_alt)
qed

text \<open>
  Claim C7, amended. When the store's create fails in registration, \<open>register\<close>
  returns \<open>User already exists\<close> if the driver's message contains \<open>UNIQUE\<close>, and
  \<open>unknown error\<close> if it does not. The uniqueness constraint on (username, type) is
  reported with such a message, so a second registration of the same pair gives
  \<open>User already exists\<close>; so does any other failure whose message contains the word.
  In no failure case is a token returned or a row written.
\<close>

theorem register_create_failure:
  assumes "hashPassword IDKey rnd (Password user) std_params = Inr hash"
  shows "((faults db = [] \<or> hd (faults db) = None) \<and>
          list_ex (\<lambda>r. Username r = Username user \<and> Type r = Type user) (users db) \<longrightarrow>
            register IDKey rnd lib env now user db =
              (Inl (New ''User already exists''), db\<lparr>faults := tl (faults db)\<rparr>)) \<and>
         (faults db = Some msg # fs \<longrightarrow>
            register IDKey rnd lib env now user db =
              (Inl (New (if Contains msg ''UNIQUE'' then ''User already exists''
                         else ''unknown error'')), db\<lparr>faults := fs\<rparr>)) \<and>
         (\<forall>e db'. Create (user\<lparr>Password := hash\<rparr>) db = (Inl e, db') \<longrightarrow>
            register IDKey rnd lib env now user db =
              (Inl (New (if Contains (db_Error e) ''UNIQUE'' then ''User already exists''
                         else ''unknown error'')), db') \<and>
            users db' = users db)"
proof (intro conjI impI allI)
  assume a: "(faults db = [] \<or> hd (faults db) = None) \<and>
          list_ex (\<lambda>r. Username r = Username user \<and> Type r = Type user) (users db)"
  then have "list_ex (\<lambda>r. Username r = Username (user\<lparr>Password := hash\<rparr>) \<and>
                        Type r = Type (user\<lparr>Password := hash\<rparr>)) (users db)" by simp
  with a have "Create (user\<lparr>Password := hash\<rparr>) db =
      (Inl (DriverError ''UNIQUE constraint failed: users.username, users.type''),
       db\<lparr>faults := tl (faults db)\<rparr>)"
    by (intro Create_unique) simp_all
  then show "register IDKey rnd lib env now user db =
              (Inl (New ''User already exists''), db\<lparr>faults := tl (faults db)\<rparr>)"
    using Contains_UNIQUE by (simp add: register_alt assms)
next
  assume a: "faults db = Some msg # fs"
  then have "Create (user\<lparr>Password := hash\<rparr>) db = (Inl (DriverError msg), db\<lparr>faults := fs\<rparr>)"
    by (intro Create_fault) simp
  then show "register IDKey rnd lib env now user db =
              (Inl (New (if Contains msg ''UNIQUE'' then ''User already exists''
                         else ''unknown error'')), db\<lparr>faults := fs\<rparr>)"
    by (simp add: register_alt assms)
next
  fix e db'
  assume c: "Create (user\<lparr>Password := hash\<rparr>) db = (Inl e, db')"
  then show "register IDKey rnd lib env now user db =
              (Inl (New (if Contains (db_Error e) ''UNIQUE'' then ''User already exists''
                         else ''unknown error'')), db')"
    by (simp add: register_alt assms)
  show "users db' = users db"
    using Create_cases[OF c] by auto
qed

theorem register_create_failure_witness:
  "register sample_IDKey (Some (\<lambda>i. 7)) sample_jwt sample_env 0
     \<lparr>ID = 0, Username = ''bob'', Password = ''pw'', Type = 0, ThirdPartyID = []\<rparr>
     \<lparr>users = [\<lparr>ID = 1, Username = ''bob'', Password = ''x'', Type = 0, ThirdPartyID = []\<rparr>],
      nextID = 2, faults = []\<rparr>
   = (Inl (New ''User already exists''),
      \<lparr>users = [\<lparr>ID = 1, Username = ''bob'', Password = ''x'', Type = 0, ThirdPartyID = []\<rparr>],
       nextID = 2, faults = []\<rparr>) \<and>
   register sample_IDKey (Some (\<lambda>i. 7)) sample_jwt sample_env 0
     \<lparr>ID = 0, Username = ''bob'', Password = ''pw'', Type = 0, ThirdPartyID = []\<rparr>
     \<lparr>users = [], nextID = 1, faults = [Some ''disk I/O error'']\<rparr>
   = (Inl (New ''unknown error''), \<lparr>users = [], nextID = 1, faults = []\<rparr>)"
proof -
  obtain hash where h: "hashPassword sample_IDKey (Some (\<lambda>i. 7))
      (Password \<lparr>ID = 0, Username = ''bob'', Password = ''pw'', Type = 0, ThirdPartyID = []\<rparr>) std_params = Inr hash"
    using sample_hashPassword by blast
  show ?thesis
    using register_create_failure[OF h, where db =
        "\<lparr>users = [\<lparr>ID = 1, Username = ''bob'', Password = ''x'', Type = 0, ThirdPartyID = []\<rparr>],
          nextID = 2, faults = []\<rparr>" and lib = sample_jwt and env = sample_env and now = 0
        and msg = "''disk I/O error''" and fs = "[]"]
      register_create_failure[OF h, where db =
        "\<lparr>users = [], nextID = 1, faults = [Some ''disk I/O error'']\<rparr>" and msg = "''disk I/O error''"
        and fs = "[]" and lib = sample_jwt and env = sample_env and now = 0]
    by simp
qed



text \<open>
  Claim C4 (the code departs from it). \<open>register\<close> stores the \<open>Type\<close> its caller
  submitted: it never sets or checks the field. Evaluated at a registration request whose
  \<open>type\<close> is 1, the row written has \<open>Type = JELLYFIN_USER\<close>, not the local type 0,
  and a token is issued for it. The password hash of the row is the encoded hash, hence
  not empty.
\<close>

theorem register_keeps_submitted_Type:
  assumes "hashPassword IDKey rnd ''pw'' std_params = Inr hash"
  shows "snd (register IDKey rnd lib env now
            \<lparr>ID = 0, Username = ''mallory'', Password = ''pw'', Type = 1, ThirdPartyID = []\<rparr>
            \<lparr>users = [], nextID = 1, faults = []\<rparr>) =
           \<lparr>users = [\<lparr>ID = 1, Username = ''mallory'', Password = hash, Type = JELLYFIN_USER,
                       ThirdPartyID = []\<rparr>],
            nextID = 2, faults = []\<rparr> \<and>
         (\<exists>tok. fst (register IDKey rnd lib env now
            \<lparr>ID = 0, Username = ''mallory'', Password = ''pw'', Type = 1, ThirdPartyID = []\<rparr>
            \<lparr>users = [], nextID = 1, faults = []\<rparr>) = Inr \<lparr>Token = tok\<rparr>)"
proof -
  obtain tok where "signJWT lib env now
      \<lparr>ID = Suc 0, Username = ''mallory'', Password = hash, Type = 1, ThirdPartyID = []\<rparr> = Inr tok"
    using signJWT_Inr by blast
  then show ?thesis
    using assms by (simp add: register_alt Create_def next_fault_def Let_def JELLYFIN_USER_def)
qed

theorem register_keeps_submitted_Type_witness:
  "\<exists>hash. users (snd (register sample_IDKey (Some (\<lambda>i. 7)) sample_jwt sample_env 0
            \<lparr>ID = 0, Username = ''mallory'', Password = ''pw'', Type = 1, ThirdPartyID = []\<rparr>
            \<lparr>users = [], nextID = 1, faults = []\<rparr>)) =
           [\<lparr>ID = 1, Username = ''mallory'', Password = hash, Type = JELLYFIN_USER,
                       ThirdPartyID = []\<rparr>]"
proof -
  obtain hash where h: "hashPassword sample_IDKey (Some (\<lambda>i. 7)) ''pw'' std_params = Inr hash"
    using sample_hashPassword by blast
  show ?thesis
    using register_keeps_submitted_Type[OF h, of sample_jwt sample_env 0] by auto
qed

lemma Take_no_fault:
  assumes "faults db = [] \<or> hd (faults db) = None"
  shows "Take cond db =
           (case filter cond (users db) of
              [] \<Rightarrow> (Inl ErrRecordNotFound, db\<lparr>faults := tl (faults db)\<rparr>)
            | u # _ \<Rightarrow> (Inr u, db\<lparr>faults := tl (faults db)\<rparr>))"
  using assms by (cases "faults db") (auto simp: Take_def next_fault_def split: list.splits)

lemma Take_users: "Take cond db = (r, db') \<Longrightarrow> users db' = users db \<and> nextID db' = nextID db"
  by (auto simp: Take_def next_fault_def split: list.splits option.splits)

text \<open>
  Claim C3, as stated, fails: an unknown username and a wrong password give the caller
  different errors. In the store \<open>sample_db\<close>, which holds the local user bob, a login
  as nobody fails with \<open>User does not exist\<close> and a login as bob with a wrong password
  fails with \<open>incorrect details\<close>.
\<close>

theorem login_errors_differ_counterexample:
  "fst (login sample_IDKey sample_jwt sample_env 0
          \<lparr>ID = 0, Username = ''nobody'', Password = ''x'', Type = 0, ThirdPartyID = []\<rparr> sample_db)
     = Inl (New ''User does not exist'') \<and>
   fst (login sample_IDKey sample_jwt sample_env 0
          \<lparr>ID = 0, Username = ''bob'', Password = ''x'', Type = 0, ThirdPartyID = []\<rparr> sample_db)
     = Inl (New ''incorrect details'') \<and>
   fst (login sample_IDKey sample_jwt sample_env 0
          \<lparr>ID = 0, Username = ''nobody'', Password = ''x'', Type = 0, ThirdPartyID = []\<rparr> sample_db)
     \<noteq> fst (login sample_IDKey sample_jwt sample_env 0
          \<lparr>ID = 0, Username = ''bob'', Password = ''x'', Type = 0, ThirdPartyID = []\<rparr> sample_db)"
proof -
  have e: "''$argon2id$v=19$m=8,t=1,p=1$Bwc$cHcHBw'' =
           encoded_hash \<lparr>memory = 8, iterations = 1, parallelism = 1, saltLength = 2, keyLength = 4\<rparr>
             [7, 7] [112, 119, 7, 7]"
    by (simp add: encoded_hash_def w_dec RawStdEncoding_def encodeStd_def)
  have c: "compareHash sample_IDKey ''x'' ''$argon2id$v=19$m=8,t=1,p=1$Bwc$cHcHBw'' = Inr False"
    unfolding e
    by (simp add: compareHash_def decodeHash_encoded_hash sample_IDKey_def bytes_of_def
          ConstantTimeCompare_def)
  have 1: "fst (login sample_IDKey sample_jwt sample_env 0
          \<lparr>ID = 0, Username = ''nobody'', Password = ''x'', Type = 0, ThirdPartyID = []\<rparr> sample_db)
     = Inl (New ''User does not exist'')"
    by (simp add: login_def Take_def next_fault_def sample_db_def)
  have 2: "fst (login sample_IDKey sample_jwt sample_env 0
          \<lparr>ID = 0, Username = ''bob'', Password = ''x'', Type = 0, ThirdPartyID = []\<rparr> sample_db)
     = Inl (New ''incorrect details'')"
    using c by (simp add: login_def Take_def next_fault_def sample_db_def)
  show ?thesis unfolding 1 2 by simp
qed

text \<open>
  Claim C3, amended. With no store fault scheduled for the lookup: when no local user
  (type 0) has the submitted username, \<open>login\<close> fails with \<open>User does not exist\<close>;
  when the first such user exists and \<open>compareHash\<close> reports a mismatch, it fails with
  \<open>incorrect details\<close>. Neither failure issues a token or changes the rows, and the
  two errors are different values.
\<close>

theorem login_failure_errors:
  assumes "faults db = [] \<or> hd (faults db) = None"
  shows "(filter (\<lambda>r. Username r = Username user \<and> Type r = 0) (users db) = [] \<longrightarrow>
            login IDKey lib env now user db =
              (Inl (New ''User does not exist''), db\<lparr>faults := tl (faults db)\<rparr>)) \<and>
         (\<forall>dbUser rest.
            filter (\<lambda>r. Username r = Username user \<and> Type r = 0) (users db) = dbUser # rest \<and>
            compareHash IDKey (Password user) (Password dbUser) = Inr False \<longrightarrow>
            login IDKey lib env now user db =
              (Inl (New ''incorrect details''), db\<lparr>faults := tl (faults db)\<rparr>)) \<and>
         New ''User does not exist'' \<noteq> New ''incorrect details''"
  by (auto simp: login_def Take_no_fault[OF assms])

theorem login_failure_errors_witness:
  "login sample_IDKey sample_jwt sample_env 0
      \<lparr>ID = 0, Username = ''nobody'', Password = ''x'', Type = 0, ThirdPartyID = []\<rparr> sample_db
     = (Inl (New ''User does not exist''), sample_db) \<and>
   login sample_IDKey sample_jwt sample_env 0
      \<lparr>ID = 0, Username = ''bob'', Password = ''x'', Type = 0, ThirdPartyID = []\<rparr> sample_db
     = (Inl (New ''incorrect details''), sample_db)"
proof -
  have e: "''$argon2id$v=19$m=8,t=1,p=1$Bwc$cHcHBw'' =
           encoded_hash \<lparr>memory = 8, iterations = 1, parallelism = 1, saltLength = 2, keyLength = 4\<rparr>
             [7, 7] [112, 119, 7, 7]"
    by (simp add: encoded_hash_def w_dec RawStdEncoding_def encodeStd_def)
  have c: "compareHash sample_IDKey ''x'' ''$argon2id$v=19$m=8,t=1,p=1$Bwc$cHcHBw'' = Inr False"
    unfolding e
    by (simp add: compareHash_def decodeHash_encoded_hash sample_IDKey_def bytes_of_def
          ConstantTimeCompare_def)
  have f: "faults sample_db = [] \<or> hd (faults sample_db) = None"
    by (simp add: sample_db_def)
  have s: "sample_db\<lparr>faults := tl (faults sample_db)\<rparr> = sample_db"
    by (simp add: sample_db_def)
  show ?thesis
    using c login_failure_errors[OF f, of "\<lparr>ID = 0, Username = ''nobody'', Password = ''x'', Type = 0, ThirdPartyID = []\<rparr>"
        sample_IDKey sample_jwt sample_env 0]
      login_failure_errors[OF f, of "\<lparr>ID = 0, Username = ''bob'', Password = ''x'', Type = 0, ThirdPartyID = []\<rparr>"
        sample_IDKey sample_jwt sample_env 0]
    by (simp add: s) (simp add: sample_db_def)
qed

lemma authenticateByName_disabled_error:
  assumes "\<forall>req res. client_Do net req = Inr res \<longrightarrow> ReadAll res \<noteq> Inl (New ''jellyfin login not enabled'')"
  shows "fst (authenticateByName net host user) \<noteq> Inl (New ''jellyfin login not enabled'')"
  using assms
  by (auto simp: authenticateByName_def Let_def split: sum.splits)

lemma resolveJellyfinUser_error:
  "fst (resolveJellyfinUser lib env now resp db) \<noteq> Inl (New ''jellyfin login not enabled'')"
  by (auto simp: resolveJellyfinUser_def Let_def split: sum.splits prod.splits db_error.splits)

text \<open>
  Claim C8. When \<open>JELLYFIN_HOST\<close> is not set, \<open>loginJellyfin\<close> returns the error
  \<open>jellyfin login not enabled\<close>, sends no request and leaves the store (its rows and
  its pending statements) as it was. The error is distinct: with the host set, and a
  transport whose body read never fails with that very message, no path of
  \<open>loginJellyfin\<close> returns it.
\<close>

theorem loginJellyfin_disabled:
  "(Getenv env ''JELLYFIN_HOST'' = [] \<longrightarrow>
      loginJellyfin net lib env now user db = (Inl (New ''jellyfin login not enabled''), db, [])) \<and>
   (Getenv env ''JELLYFIN_HOST'' \<noteq> [] \<and>
    (\<forall>req res. client_Do net req = Inr res \<longrightarrow> ReadAll res \<noteq> Inl (New ''jellyfin login not enabled'')) \<longrightarrow>
      fst (loginJellyfin net lib env now user db) \<noteq> Inl (New ''jellyfin login not enabled''))"
proof (intro conjI impI)
  assume "Getenv env ''JELLYFIN_HOST'' = []"
  then show "loginJellyfin net lib env now user db = (Inl (New ''jellyfin login not enabled''), db, [])"
    by (simp add: loginJellyfin_def)
next
  assume a: "Getenv env ''JELLYFIN_HOST'' \<noteq> [] \<and>
    (\<forall>req res. client_Do net req = Inr res \<longrightarrow> ReadAll res \<noteq> Inl (New ''jellyfin login not enabled''))"
  obtain r sent where au: "authenticateByName net (Getenv env ''JELLYFIN_HOST'') user = (r, sent)"
    by (cases "authenticateByName net (Getenv env ''JELLYFIN_HOST'') user")
  have r: "r \<noteq> Inl (New ''jellyfin login not enabled'')"
    using authenticateByName_disabled_error[of net "Getenv env ''JELLYFIN_HOST''" user] a au by simp
  show "fst (loginJellyfin net lib env now user db) \<noteq> Inl (New ''jellyfin login not enabled'')"
  proof (cases r)
    case (Inl e)
    then show ?thesis using a au r by (simp add: loginJellyfin_def Let_def)
  next
    case (Inr resp)
    then show ?thesis
      using a au resolveJellyfinUser_error[of lib env now resp db]
      by (auto simp: loginJellyfin_def Let_def split: prod.splits)
  qed
qed

theorem loginJellyfin_disabled_witness:
  "loginJellyfin (sample_net ''jf-1'' ''bob'') sample_jwt sample_env 0
      \<lparr>ID = 0, Username = ''bob'', Password = ''pw'', Type = 0, ThirdPartyID = []\<rparr> sample_db
     = (Inl (New ''jellyfin login not enabled''), sample_db, []) \<and>
   fst (loginJellyfin (sample_net ''jf-1'' ''bob'') sample_jwt jellyfin_env 0
      \<lparr>ID = 0, Username = ''bob'', Password = ''pw'', Type = 0, ThirdPartyID = []\<rparr> sample_db)
     \<noteq> Inl (New ''jellyfin login not enabled'')"
  using loginJellyfin_disabled[of sample_env "sample_net ''jf-1'' ''bob''" sample_jwt 0
      "\<lparr>ID = 0, Username = ''bob'', Password = ''pw'', Type = 0, ThirdPartyID = []\<rparr>" sample_db]
    loginJellyfin_disabled[of jellyfin_env "sample_net ''jf-1'' ''bob''" sample_jwt 0
      "\<lparr>ID = 0, Username = ''bob'', Password = ''pw'', Type = 0, ThirdPartyID = []\<rparr>" sample_db]
  by (simp add: Getenv_def sample_env_def jellyfin_env_def sample_net_def)

lemma authenticateByName_Id:
  "authenticateByName net host user = (Inr resp, sent) \<Longrightarrow> Id resp \<noteq> []"
  by (auto simp: authenticateByName_def Let_def split: sum.splits if_splits)

lemma faults_nil_update: "faults db = [] \<Longrightarrow> db\<lparr>faults := []\<rparr> = db"
  by (cases db) simp

lemma resolve_new:
  assumes "faults db = []"
    and "filter (\<lambda>r. ThirdPartyID r = Id resp) (users db) = []"
    and "\<not> list_ex (\<lambda>r. Username r = Name resp \<and> Type r = JELLYFIN_USER) (users db)"
    and "signJWT lib env now (new_jellyfin_user resp db) = Inr tok"
  shows "resolveJellyfinUser lib env now resp db =
           (Inr \<lparr>Token = tok\<rparr>,
            db\<lparr>users := users db @ [new_jellyfin_user resp db], nextID := Suc (nextID db)\<rparr>)"
  using assms
  by (simp add: resolveJellyfinUser_def Take_def Create_def next_fault_def Let_def
        new_jellyfin_user_def)

lemma resolve_existing:
  assumes "faults db = []"
    and "filter (\<lambda>r. ThirdPartyID r = Id resp) (users db) = u # rest"
    and "signJWT lib env now u = Inr tok"
  shows "resolveJellyfinUser lib env now resp db = (Inr \<lparr>Token = tok\<rparr>, db)"
  using assms
  by (simp add: resolveJellyfinUser_def Take_def next_fault_def Let_def)

lemma resolve_users:
  "users (snd (resolveJellyfinUser lib env now resp db)) = users db \<or>
   (users (snd (resolveJellyfinUser lib env now resp db)) = users db @ [new_jellyfin_user resp db] \<and>
    filter (\<lambda>r. ThirdPartyID r = Id resp) (users db) = [])"
proof -
  obtain r1 db1 where t: "Take (\<lambda>r. ThirdPartyID r = Id resp) db = (r1, db1)"
    by (cases "Take (\<lambda>r. ThirdPartyID r = Id resp) db")
  have u1: "users db1 = users db" "nextID db1 = nextID db" using Take_users[OF t] by simp_all
  show ?thesis
  proof (cases r1)
    case (Inr u)
    then show ?thesis using t u1
      by (simp add: resolveJellyfinUser_def Let_def split: sum.splits)
  next
    case (Inl e)
    show ?thesis
    proof (cases e)
      case (DriverError msg)
      then show ?thesis using t u1 Inl by (simp add: resolveJellyfinUser_def Let_def)
    next
      case ErrRecordNotFound
      have nf: "filter (\<lambda>r. ThirdPartyID r = Id resp) (users db) = []"
        using t Inl ErrRecordNotFound
        by (auto simp: Take_def next_fault_def split: list.splits option.splits)
      obtain r2 db2 where c: "Create \<lparr>ID = 0, Username = Name resp, Password = [], Type = JELLYFIN_USER,
                        ThirdPartyID = Id resp\<rparr> db1 = (r2, db2)"
        by (cases "Create \<lparr>ID = 0, Username = Name resp, Password = [], Type = JELLYFIN_USER,
                        ThirdPartyID = Id resp\<rparr> db1")
      from Create_cases[OF c] show ?thesis
        using t Inl ErrRecordNotFound c u1 nf
        by (auto simp: resolveJellyfinUser_def Let_def new_jellyfin_user_def split: sum.splits)
    qed
  qed
qed

lemma distinct_ThirdPartyIDs_append:
  assumes "distinct_ThirdPartyIDs rows" and "filter (\<lambda>r. ThirdPartyID r = ThirdPartyID new) rows = []"
  shows "distinct_ThirdPartyIDs (rows @ [new])"
proof -
  have "ThirdPartyID new \<notin> ThirdPartyID ` set rows"
    using assms(2) by (auto simp: filter_empty_conv)
  then show ?thesis using assms(1)
    by (auto simp: distinct_ThirdPartyIDs_def)
qed

lemma loginJellyfin_users:
  "users (fst (snd (loginJellyfin net lib env now user db))) = users db \<or>
   (\<exists>resp. users (fst (snd (loginJellyfin net lib env now user db))) = users db @ [new_jellyfin_user resp db] \<and>
    filter (\<lambda>r. ThirdPartyID r = Id resp) (users db) = [])"
proof (cases "Getenv env ''JELLYFIN_HOST'' = []")
  case True
  then show ?thesis by (simp add: loginJellyfin_def)
next
  case False
  obtain r sent where au: "authenticateByName net (Getenv env ''JELLYFIN_HOST'') user = (r, sent)"
    by (cases "authenticateByName net (Getenv env ''JELLYFIN_HOST'') user")
  show ?thesis
  proof (cases r)
    case (Inl e)
    then show ?thesis using False au by (simp add: loginJellyfin_def Let_def)
  next
    case (Inr resp)
    have "users (fst (snd (loginJellyfin net lib env now user db))) =
          users (snd (resolveJellyfinUser lib env now resp db))"
      using False au Inr by (simp add: loginJellyfin_def Let_def split: prod.splits)
    then show ?thesis using resolve_users[of lib env now resp db] by auto
  qed
qed

text \<open>
  Claim C5, as stated, fails: a third-party ID that no stored user has does not always
  lead to a new user and a token. The store's unique index on (username, type) refuses a
  second delegated user with a display name already taken: here the store holds the
  delegated user bob with third-party ID \<open>jf-1\<close>, the provider answers with ID
  \<open>jf-2\<close> and name bob, and the login ends without a new row and without a token.
\<close>

theorem loginJellyfin_name_taken_counterexample:
  "filter (\<lambda>r. ThirdPartyID r = ''jf-2'')
      [\<lparr>ID = 1, Username = ''bob'', Password = [], Type = JELLYFIN_USER, ThirdPartyID = ''jf-1''\<rparr>] = [] \<and>
   fst (snd (loginJellyfin (sample_net ''jf-2'' ''bob'') sample_jwt jellyfin_env 0
      \<lparr>ID = 0, Username = ''bob'', Password = ''pw'', Type = 0, ThirdPartyID = []\<rparr>
      \<lparr>users = [\<lparr>ID = 1, Username = ''bob'', Password = [], Type = JELLYFIN_USER, ThirdPartyID = ''jf-1''\<rparr>],
       nextID = 2, faults = []\<rparr>))
   = \<lparr>users = [\<lparr>ID = 1, Username = ''bob'', Password = [], Type = JELLYFIN_USER, ThirdPartyID = ''jf-1''\<rparr>],
       nextID = 2, faults = []\<rparr> \<and>
   fst (loginJellyfin (sample_net ''jf-2'' ''bob'') sample_jwt jellyfin_env 0
      \<lparr>ID = 0, Username = ''bob'', Password = ''pw'', Type = 0, ThirdPartyID = []\<rparr>
      \<lparr>users = [\<lparr>ID = 1, Username = ''bob'', Password = [], Type = JELLYFIN_USER, ThirdPartyID = ''jf-1''\<rparr>],
       nextID = 2, faults = []\<rparr>)
   = Inl (Panic ''nil pointer dereference'')"
  by (simp add: loginJellyfin_def Getenv_def jellyfin_env_def authenticateByName_def sample_net_def
        Let_def resolveJellyfinUser_def Take_def Create_def next_fault_def JELLYFIN_USER_def)

text \<open>
  Claim C5, amended. Let the provider exchange succeed with an answer \<open>resp\<close> (its ID
  is then not empty) and let no store failure be pending. If no stored user has that
  third-party ID and no delegated user already holds the returned display name,
  \<open>loginJellyfin\<close> appends exactly one user with that third-party ID, the returned name
  and type \<open>JELLYFIN_USER\<close>, and returns a token signed for it. If a user with that
  third-party ID exists, the first such user is reused: the store is unchanged and the
  token is signed for that user. In every run, rows with pairwise different non-empty
  third-party IDs stay so.
\<close>

theorem loginJellyfin_resolves_user:
  "(Getenv env ''JELLYFIN_HOST'' \<noteq> [] \<and>
    authenticateByName net (Getenv env ''JELLYFIN_HOST'') user = (Inr resp, sent) \<and>
    faults db = [] \<longrightarrow>
      Id resp \<noteq> [] \<and>
      (filter (\<lambda>r. ThirdPartyID r = Id resp) (users db) = [] \<and>
       \<not> list_ex (\<lambda>r. Username r = Name resp \<and> Type r = JELLYFIN_USER) (users db) \<longrightarrow>
         (\<exists>tok. signJWT lib env now (new_jellyfin_user resp db) = Inr tok \<and>
            loginJellyfin net lib env now user db =
              (Inr \<lparr>Token = tok\<rparr>,
               db\<lparr>users := users db @ [new_jellyfin_user resp db], nextID := Suc (nextID db)\<rparr>,
               sent))) \<and>
      (\<forall>u rest. filter (\<lambda>r. ThirdPartyID r = Id resp) (users db) = u # rest \<longrightarrow>
         (\<exists>tok. signJWT lib env now u = Inr tok \<and>
            loginJellyfin net lib env now user db = (Inr \<lparr>Token = tok\<rparr>, db, sent)))) \<and>
   (distinct_ThirdPartyIDs (users db) \<longrightarrow>
      distinct_ThirdPartyIDs (users (fst (snd (loginJellyfin net lib env now user db)))))"
proof (intro conjI impI allI)
  assume a: "Getenv env ''JELLYFIN_HOST'' \<noteq> [] \<and>
    authenticateByName net (Getenv env ''JELLYFIN_HOST'') user = (Inr resp, sent) \<and> faults db = []"
  then show "Id resp \<noteq> []" using authenticateByName_Id by blast
  {
    assume n: "filter (\<lambda>r. ThirdPartyID r = Id resp) (users db) = [] \<and>
       \<not> list_ex (\<lambda>r. Username r = Name resp \<and> Type r = JELLYFIN_USER) (users db)"
    obtain tok where t: "signJWT lib env now (new_jellyfin_user resp db) = Inr tok"
      using signJWT_Inr by blast
    have "loginJellyfin net lib env now user db =
              (Inr \<lparr>Token = tok\<rparr>,
               db\<lparr>users := users db @ [new_jellyfin_user resp db], nextID := Suc (nextID db)\<rparr>,
               sent)"
      using a n resolve_new[of db resp lib env now tok, OF _ _ _ t]
      by (simp add: loginJellyfin_def Let_def)
    with t show "\<exists>tok. signJWT lib env now (new_jellyfin_user resp db) = Inr tok \<and>
            loginJellyfin net lib env now user db =
              (Inr \<lparr>Token = tok\<rparr>,
               db\<lparr>users := users db @ [new_jellyfin_user resp db], nextID := Suc (nextID db)\<rparr>,
               sent)" by blast
  }
  {
    fix u rest
    assume f: "filter (\<lambda>r. ThirdPartyID r = Id resp) (users db) = u # rest"
    obtain tok where t: "signJWT lib env now u = Inr tok"
      using signJWT_Inr by blast
    have "loginJellyfin net lib env now user db = (Inr \<lparr>Token = tok\<rparr>, db, sent)"
      using a resolve_existing[of db resp u rest lib env now tok, OF _ f t]
      by (simp add: loginJellyfin_def Let_def)
    with t show "\<exists>tok. signJWT lib env now u = Inr tok \<and>
            loginJellyfin net lib env now user db = (Inr \<lparr>Token = tok\<rparr>, db, sent)" by blast
  }
next
  assume d: "distinct_ThirdPartyIDs (users db)"
  from loginJellyfin_users[of net lib env now user db]
  show "distinct_ThirdPartyIDs (users (fst (snd (loginJellyfin net lib env now user db))))"
  proof (elim disjE exE conjE)
    assume "users (fst (snd (loginJellyfin net lib env now user db))) = users db"
    then show ?thesis using d by simp
  next
    fix resp'
    assume u: "users (fst (snd (loginJellyfin net lib env now user db))) = users db @ [new_jellyfin_user resp' db]"
      and f: "filter (\<lambda>r. ThirdPartyID r = Id resp') (users db) = []"
    have "distinct_ThirdPartyIDs (users db @ [new_jellyfin_user resp' db])"
      by (rule distinct_ThirdPartyIDs_append[OF d]) (simp add: new_jellyfin_user_def f)
    then show ?thesis using u by simp
  qed
qed

theorem loginJellyfin_resolves_user_witness:
  "(\<exists>tok sent. loginJellyfin (sample_net ''jf-1'' ''alice'') sample_jwt jellyfin_env 0
      \<lparr>ID = 0, Username = ''alice'', Password = ''pw'', Type = 0, ThirdPartyID = []\<rparr>
      \<lparr>users = [], nextID = 1, faults = []\<rparr>
     = (Inr \<lparr>Token = tok\<rparr>,
        \<lparr>users = [\<lparr>ID = 1, Username = ''alice'', Password = [], Type = JELLYFIN_USER,
                    ThirdPartyID = ''jf-1''\<rparr>], nextID = 2, faults = []\<rparr>, sent)) \<and>
   (\<exists>tok sent. loginJellyfin (sample_net ''jf-1'' ''alice'') sample_jwt jellyfin_env 0
      \<lparr>ID = 0, Username = ''alice'', Password = ''pw'', Type = 0, ThirdPartyID = []\<rparr>
      \<lparr>users = [\<lparr>ID = 1, Username = ''alice'', Password = [], Type = JELLYFIN_USER,
                    ThirdPartyID = ''jf-1''\<rparr>], nextID = 2, faults = []\<rparr>
     = (Inr \<lparr>Token = tok\<rparr>,
        \<lparr>users = [\<lparr>ID = 1, Username = ''alice'', Password = [], Type = JELLYFIN_USER,
                    ThirdPartyID = ''jf-1''\<rparr>], nextID = 2, faults = []\<rparr>, sent))"
proof -
  let ?u = "\<lparr>ID = 0, Username = ''alice'', Password = ''pw'', Type = 0, ThirdPartyID = []\<rparr>"
  let ?net = "sample_net ''jf-1'' ''alice''"
  obtain sent where au: "authenticateByName ?net (Getenv jellyfin_env ''JELLYFIN_HOST'') ?u =
      (Inr \<lparr>Id = ''jf-1'', Name = ''alice''\<rparr>, sent)"
    by (simp add: authenticateByName_def sample_net_def Let_def)
  have h: "Getenv jellyfin_env ''JELLYFIN_HOST'' \<noteq> []"
    by (simp add: Getenv_def jellyfin_env_def)
  show ?thesis
    using loginJellyfin_resolves_user[of jellyfin_env ?net ?u "\<lparr>Id = ''jf-1'', Name = ''alice''\<rparr>" sent
        "\<lparr>users = [], nextID = 1, faults = []\<rparr>" sample_jwt 0]
      loginJellyfin_resolves_user[of jellyfin_env ?net ?u "\<lparr>Id = ''jf-1'', Name = ''alice''\<rparr>" sent
        "\<lparr>users = [\<lparr>ID = 1, Username = ''alice'', Password = [], Type = JELLYFIN_USER,
                    ThirdPartyID = ''jf-1''\<rparr>], nextID = 2, faults = []\<rparr>" sample_jwt 0]
      au h
    by (auto simp: new_jellyfin_user_def)
qed

lemma DecodeString_invalid_char:
  assumes "c \<in> set f" "c \<notin> set (encode enc)" "c \<noteq> CHR 0x0A" "c \<noteq> CHR 0x0D"
  shows "DecodeString enc f = Inl CorruptInputError"
proof -
  have "c \<in> set (filter (\<lambda>c. c \<noteq> CHR 0x0A \<and> c \<noteq> CHR 0x0D) f)" using assms by simp
  moreover have "decodeMap enc c = 255" using assms(2) by (simp add: decodeMap_def)
  ultimately have "\<not> list_all (\<lambda>c. decodeMap enc c \<noteq> 255) (filter (\<lambda>c. c \<noteq> CHR 0x0A \<and> c \<noteq> CHR 0x0D) f)"
    by (auto simp: list_all_iff)
  then show ?thesis by (simp add: DecodeString_def Let_def)
qed

lemma decodeHash_field_count:
  "count_list s (CHR ''$'') \<noteq> 5 \<Longrightarrow>
   decodeHash s = Inl (New ''the encoded hash is not in the correct format'')"
  by (simp add: decodeHash_def Let_def length_Split)

lemma decodeHash_Inr_checks:
  assumes "decodeHash s = Inr r"
  shows "length (Split s (CHR ''$'')) = 6 \<and>
         (\<exists>vs. Sscanf (Split s (CHR ''$'') ! 2) ''v=%d'' [PInt] = Inr vs \<and> the_int (vs ! 0) = argon2_Version) \<and>
         (\<exists>ps. Sscanf (Split s (CHR ''$'') ! 3) ''m=%d,t=%d,p=%d'' [PUint32, PUint32, PUint8] = Inr ps) \<and>
         (\<exists>salt. DecodeString (Strict RawStdEncoding) (Split s (CHR ''$'') ! 4) = Inr salt) \<and>
         (\<exists>hash. DecodeString (Strict RawStdEncoding) (Split s (CHR ''$'') ! 5) = Inr hash)"
  using assms
  by (simp add: decodeHash_def Let_def split: if_splits sum.splits)

lemma compareHash_decode_error: "decodeHash s = Inl e \<Longrightarrow> compareHash IDKey password s = Inl e"
  by (simp add: compareHash_def)

lemma compareHash_Inr_decodes:
  "compareHash IDKey password s = Inr b \<Longrightarrow> \<exists>p salt hash. decodeHash s = Inr (p, salt, hash)"
  by (cases "decodeHash s") (auto simp: compareHash_def)

text \<open>
  Claim C6. \<open>decodeHash\<close> fails closed. A string that does not have exactly five
  \<open>$\<close> signs (six fields) is refused with the format error. Whenever one of the checks
  of \<open>decodeHash\<close> fails (the field count, the parse of the version field, the
  comparison of the parsed version with the supported one, the parse of the parameter
  field, the strict base64 decoding of the salt or of the key, for which a character
  outside the alphabet is enough), \<open>decodeHash\<close> returns an error and \<open>compareHash\<close>
  returns the same error. \<open>compareHash\<close> answers \<open>true\<close> or \<open>false\<close> only for a
  string that \<open>decodeHash\<close> accepts.
\<close>

theorem decodeHash_fails_closed:
  "(count_list s (CHR ''$'') \<noteq> 5 \<longrightarrow>
      decodeHash s = Inl (New ''the encoded hash is not in the correct format'')) \<and>
   ((length (Split s (CHR ''$'')) \<noteq> 6 \<or>
     (\<exists>e. Sscanf (Split s (CHR ''$'') ! 2) ''v=%d'' [PInt] = Inl e) \<or>
     (\<exists>vs. Sscanf (Split s (CHR ''$'') ! 2) ''v=%d'' [PInt] = Inr vs \<and> the_int (vs ! 0) \<noteq> argon2_Version) \<or>
     (\<exists>e. Sscanf (Split s (CHR ''$'') ! 3) ''m=%d,t=%d,p=%d'' [PUint32, PUint32, PUint8] = Inl e) \<or>
     (\<exists>e. DecodeString (Strict RawStdEncoding) (Split s (CHR ''$'') ! 4) = Inl e) \<or>
     (\<exists>e. DecodeString (Strict RawStdEncoding) (Split s (CHR ''$'') ! 5) = Inl e) \<or>
     (\<exists>c. (c \<in> set (Split s (CHR ''$'') ! 4) \<or> c \<in> set (Split s (CHR ''$'') ! 5)) \<and>
          c \<notin> set encodeStd \<and> c \<noteq> CHR 0x0A \<and> c \<noteq> CHR 0x0D))
    \<longrightarrow> (\<exists>e. decodeHash s = Inl e \<and> compareHash IDKey password s = Inl e)) \<and>
   (\<forall>b. compareHash IDKey password s = Inr b \<longrightarrow> (\<exists>p salt hash. decodeHash s = Inr (p, salt, hash)))"
proof (intro conjI impI allI)
  assume "count_list s (CHR ''$'') \<noteq> 5"
  then show "decodeHash s = Inl (New ''the encoded hash is not in the correct format'')"
    by (rule decodeHash_field_count)
next
  assume a: "length (Split s (CHR ''$'')) \<noteq> 6 \<or>
     (\<exists>e. Sscanf (Split s (CHR ''$'') ! 2) ''v=%d'' [PInt] = Inl e) \<or>
     (\<exists>vs. Sscanf (Split s (CHR ''$'') ! 2) ''v=%d'' [PInt] = Inr vs \<and> the_int (vs ! 0) \<noteq> argon2_Version) \<or>
     (\<exists>e. Sscanf (Split s (CHR ''$'') ! 3) ''m=%d,t=%d,p=%d'' [PUint32, PUint32, PUint8] = Inl e) \<or>
     (\<exists>e. DecodeString (Strict RawStdEncoding) (Split s (CHR ''$'') ! 4) = Inl e) \<or>
     (\<exists>e. DecodeString (Strict RawStdEncoding) (Split s (CHR ''$'') ! 5) = Inl e) \<or>
     (\<exists>c. (c \<in> set (Split s (CHR ''$'') ! 4) \<or> c \<in> set (Split s (CHR ''$'') ! 5)) \<and>
          c \<notin> set encodeStd \<and> c \<noteq> CHR 0x0A \<and> c \<noteq> CHR 0x0D)"
  have enc: "encode (Strict RawStdEncoding) = encodeStd"
    by (simp add: Strict_def RawStdEncoding_def)
  have "\<exists>e. decodeHash s = Inl e"
  proof (cases "decodeHash s")
    case (Inl e)
    then show ?thesis by blast
  next
    case (Inr r)
    note c = decodeHash_Inr_checks[OF Inr]
    from a have False
    proof (elim disjE exE conjE)
      assume "length (Split s (CHR ''$'')) \<noteq> 6"
      with c show False by simp
    next
      fix e assume "Sscanf (Split s (CHR ''$'') ! 2) ''v=%d'' [PInt] = Inl e"
      with c show False by auto
    next
      fix vs assume "Sscanf (Split s (CHR ''$'') ! 2) ''v=%d'' [PInt] = Inr vs"
        "the_int (vs ! 0) \<noteq> argon2_Version"
      with c show False by auto
    next
      fix e assume "Sscanf (Split s (CHR ''$'') ! 3) ''m=%d,t=%d,p=%d'' [PUint32, PUint32, PUint8] = Inl e"
      with c show False by auto
    next
      fix e assume "DecodeString (Strict RawStdEncoding) (Split s (CHR ''$'') ! 4) = Inl e"
      with c show False by auto
    next
      fix e assume "DecodeString (Strict RawStdEncoding) (Split s (CHR ''$'') ! 5) = Inl e"
      with c show False by auto
    next
      fix ch assume ch: "ch \<in> set (Split s (CHR ''$'') ! 4)" "ch \<notin> set encodeStd"
        "ch \<noteq> CHR 0x0A" "ch \<noteq> CHR 0x0D"
      have "DecodeString (Strict RawStdEncoding) (Split s (CHR ''$'') ! 4) = Inl CorruptInputError"
        by (rule DecodeString_invalid_char[OF ch(1)]) (simp_all add: enc ch)
      with c show False by auto
    next
      fix ch assume ch: "ch \<in> set (Split s (CHR ''$'') ! 5)" "ch \<notin> set encodeStd"
        "ch \<noteq> CHR 0x0A" "ch \<noteq> CHR 0x0D"
      have "DecodeString (Strict RawStdEncoding) (Split s (CHR ''$'') ! 5) = Inl CorruptInputError"
        by (rule DecodeString_invalid_char[OF ch(1)]) (simp_all add: enc ch)
      with c show False by auto
    qed
    then show ?thesis ..
  qed
  then show "\<exists>e. decodeHash s = Inl e \<and> compareHash IDKey password s = Inl e"
    using compareHash_decode_error by blast
next
  fix b
  assume "compareHash IDKey password s = Inr b"
  then show "\<exists>p salt hash. decodeHash s = Inr (p, salt, hash)"
    by (rule compareHash_Inr_decodes)
qed

theorem decodeHash_fails_closed_witness:
  "decodeHash ''$argon2id$v=19$m=8,t=1,p=1$Bwc'' =
      Inl (New ''the encoded hash is not in the correct format'') \<and>
   (\<exists>e. decodeHash ''$argon2id$v=19$m=8,t=1,p=1$Bw!c$cHcHBw'' = Inl e \<and>
        compareHash sample_IDKey ''pw'' ''$argon2id$v=19$m=8,t=1,p=1$Bw!c$cHcHBw'' = Inl e)"
proof -
  have 1: "count_list ''$argon2id$v=19$m=8,t=1,p=1$Bwc'' (CHR ''$'') \<noteq> 5" by simp
  have 2: "Split ''$argon2id$v=19$m=8,t=1,p=1$Bw!c$cHcHBw'' (CHR ''$'') ! 4 = ''Bw!c''" by simp
  have 3: "CHR ''!'' \<notin> set encodeStd" by (simp add: encodeStd_def)
  have P: "\<exists>c. (c \<in> set (Split ''$argon2id$v=19$m=8,t=1,p=1$Bw!c$cHcHBw'' (CHR ''$'') ! 4) \<or>
                c \<in> set (Split ''$argon2id$v=19$m=8,t=1,p=1$Bw!c$cHcHBw'' (CHR ''$'') ! 5)) \<and>
          c \<notin> set encodeStd \<and> c \<noteq> CHR 0x0A \<and> c \<noteq> CHR 0x0D"
    unfolding 2 using 3 by (intro exI[of _ "CHR ''!''"]) simp
  have A: "decodeHash ''$argon2id$v=19$m=8,t=1,p=1$Bwc'' =
      Inl (New ''the encoded hash is not in the correct format'')"
    using decodeHash_fails_closed[of "''$argon2id$v=19$m=8,t=1,p=1$Bwc''" sample_IDKey "''pw''"] 1
    by blast
  have B: "\<exists>e. decodeHash ''$argon2id$v=19$m=8,t=1,p=1$Bw!c$cHcHBw'' = Inl e \<and>
        compareHash sample_IDKey ''pw'' ''$argon2id$v=19$m=8,t=1,p=1$Bw!c$cHcHBw'' = Inl e"
    using decodeHash_fails_closed[of "''$argon2id$v=19$m=8,t=1,p=1$Bw!c$cHcHBw''" sample_IDKey "''pw''"] P
    by blast
  show ?thesis using A B by blast
qed

lemma dot_not_base64url: "CHR ''.'' \<notin> set (EncodeSegment bs)"
proof -
  have "CHR ''.'' \<notin> set (encode RawURLEncoding)"
    by (simp add: RawURLEncoding_def encodeURL_def)
  then show ?thesis
    using EncodeToString_alphabet[OF wellformed_RawURLEncoding, of bs]
    unfolding EncodeSegment_def by blast
qed

lemma DecodeSegment_EncodeSegment: "DecodeSegment (EncodeSegment bs) = Inr bs"
  by (simp add: DecodeSegment_def EncodeSegment_def DecodeString_EncodeToString[OF wellformed_RawURLEncoding])

lemma Split_three:
  assumes "sep \<notin> set a" "sep \<notin> set b" "sep \<notin> set c"
  shows "Split (a @ sep # b @ sep # c) sep = [a, b, c]"
  using assms by (simp add: Split_append Split_nosep)

lemma unat_of_char: "unat (of_char c :: byte) = of_char c"
proof -
  have "(of_char c :: nat) < 256" by (rule nat_of_char_less_256)
  moreover have "(of_char c :: byte) = word_of_nat (of_char c)" by (simp add: of_nat_of_char)
  ultimately show ?thesis by (simp add: unat_of_nat)
qed

lemma inj_bytes_of: "bytes_of s = bytes_of t \<Longrightarrow> s = t"
proof -
  assume "bytes_of s = bytes_of t"
  then have "map unat (bytes_of s) = map unat (bytes_of t)" by simp
  then have "map (of_char :: char \<Rightarrow> nat) s = map of_char t"
    by (simp add: bytes_of_def unat_of_char comp_def)
  then show "s = t" by (simp add: inj_map_eq_map inj_of_char)
qed

lemma ParseWithClaims_signed:
  assumes h: "unmarshal_header lib (marshal_header lib [(''typ'', ''JWT''), (''alg'', ''HS256'')]) = Inr hdr"
    and alg: "map_of hdr ''alg'' = Some ''HS256''"
    and cl: "unmarshal_claims lib (marshal_claims lib c) = Inr c"
    and e1: "e1 = EncodeSegment (marshal_header lib [(''typ'', ''JWT''), (''alg'', ''HS256'')])"
    and e2: "e2 = EncodeSegment (marshal_claims lib c)"
  shows "ParseWithClaims lib now (e1 @ CHR ''.'' # e2 @ CHR ''.'' # EncodeSegment sig) (\<lambda>t. Inr key) =
           (if sig \<noteq> hmac_sha256 lib key (bytes_of (e1 @ CHR ''.'' # e2))
            then Inl (JwtError TokenSignatureInvalid)
            else case Validate now c of
                   Inl err \<Rightarrow> Inl err
                 | Inr u \<Rightarrow> Inr \<lparr>Header = hdr, Claims = c, Signature = sig, Valid = True\<rparr>)"
proof -
  have d: "CHR ''.'' \<notin> set e1" "CHR ''.'' \<notin> set e2"
    unfolding e1 e2 by (rule dot_not_base64url)+
  have parts: "Split (e1 @ CHR ''.'' # e2 @ CHR ''.'' # EncodeSegment sig) (CHR ''.'') =
      [e1, e2, EncodeSegment sig]"
    by (rule Split_three[OF d dot_not_base64url])
  have d1: "DecodeSegment e1 = Inr (marshal_header lib [(''typ'', ''JWT''), (''alg'', ''HS256'')])"
    and d2: "DecodeSegment e2 = Inr (marshal_claims lib c)"
    unfolding e1 e2 by (rule DecodeSegment_EncodeSegment)+
  show ?thesis
    by (simp add: ParseWithClaims_def parts Let_def DecodeSegment_EncodeSegment d1 d2 h alg cl
          method_Verify_def split: sum.splits)
qed

lemma signJWT_eq:
  "signJWT lib env now user =
     Inr (EncodeSegment (marshal_header lib [(''typ'', ''JWT''), (''alg'', ''HS256'')]) @ CHR ''.'' #
          EncodeSegment (marshal_claims lib (issued_claims user now)) @ CHR ''.'' #
          EncodeSegment (hmac_sha256 lib (bytes_of (Getenv env ''JWT_SECRET''))
            (bytes_of (EncodeSegment (marshal_header lib [(''typ'', ''JWT''), (''alg'', ''HS256'')]) @ CHR ''.'' #
                       EncodeSegment (marshal_claims lib (issued_claims user now))))))"
  by (simp add: signJWT_def SignedString_def SigningString_def NewWithClaims_def Let_def issued_claims_def)

lemma ParseWithClaims_signJWT:
  assumes j: "json_roundtrip lib (issued_claims user now)"
    and s: "signJWT lib env now user = Inr tok"
  shows "\<exists>hdr sig sstr. tok \<noteq> [] \<and>
           sig = hmac_sha256 lib (bytes_of (Getenv env ''JWT_SECRET'')) (bytes_of sstr) \<and>
           (\<forall>now' key. ParseWithClaims lib now' tok (\<lambda>t. Inr key) =
              (if sig \<noteq> hmac_sha256 lib key (bytes_of sstr)
               then Inl (JwtError TokenSignatureInvalid)
               else Inr \<lparr>Header = hdr, Claims = issued_claims user now, Signature = sig, Valid = True\<rparr>)) \<and>
           bytes_of sstr = signing_input lib user now"
proof -
  from j obtain hdr where
    h: "unmarshal_header lib (marshal_header lib [(''typ'', ''JWT''), (''alg'', ''HS256'')]) = Inr hdr"
    and alg: "map_of hdr ''alg'' = Some ''HS256''"
    and cl: "unmarshal_claims lib (marshal_claims lib (issued_claims user now)) = Inr (issued_claims user now)"
    by (auto simp: json_roundtrip_def)
  define e1 where "e1 = EncodeSegment (marshal_header lib [(''typ'', ''JWT''), (''alg'', ''HS256'')])"
  define e2 where "e2 = EncodeSegment (marshal_claims lib (issued_claims user now))"
  define sig where "sig = hmac_sha256 lib (bytes_of (Getenv env ''JWT_SECRET'')) (bytes_of (e1 @ CHR ''.'' # e2))"
  have tok: "tok = e1 @ CHR ''.'' # e2 @ CHR ''.'' # EncodeSegment sig"
    using s unfolding signJWT_eq e1_def e2_def sig_def by simp
  have v: "\<And>now'. Validate now' (issued_claims user now) = Inr ()"
    by (simp add: Validate_def issued_claims_def)
  have "\<forall>now' key. ParseWithClaims lib now' tok (\<lambda>t. Inr key) =
              (if sig \<noteq> hmac_sha256 lib key (bytes_of (e1 @ CHR ''.'' # e2))
               then Inl (JwtError TokenSignatureInvalid)
               else Inr \<lparr>Header = hdr, Claims = issued_claims user now, Signature = sig, Valid = True\<rparr>)"
    unfolding tok by (simp add: ParseWithClaims_signed[OF h alg cl e1_def e2_def] v)
  moreover have "tok \<noteq> []" unfolding tok by simp
  moreover have "bytes_of (e1 @ CHR ''.'' # e2) = signing_input lib user now"
    by (simp add: signing_input_def SigningString_def NewWithClaims_def e1_def e2_def)
  ultimately show ?thesis using sig_def by blast
qed

text \<open>
  Claim C2. A token produced by \<open>signJWT\<close> for a user, verified under the same
  \<open>JWT_SECRET\<close>, parses as valid and carries exactly the claims written at issue:
  the user's ID and username (with the issuer and the issue time). \<open>AuthRequired\<close>
  lets the request through with that user ID. The JSON codec of the token library is a
  parameter, assumed to decode what it encoded for the header and for these claims.
\<close>

theorem signJWT_AuthRequired_roundtrip:
  assumes "json_roundtrip lib (issued_claims user now)"
    and "signJWT lib env now user = Inr tok"
  shows "\<exists>token. ParseWithClaims lib now' tok (\<lambda>t. Inr (bytes_of (Getenv env ''JWT_SECRET''))) = Inr token \<and>
           Valid token \<and> Claims token = issued_claims user now \<and>
           UserID (Claims token) = ID user \<and> Username' (Claims token) = Username user \<and>
           AuthRequired lib env now' tok = Next (ID user)"
proof -
  from ParseWithClaims_signJWT[OF assms] obtain hdr sig sstr where
    ne: "tok \<noteq> []" and
    sig: "sig = hmac_sha256 lib (bytes_of (Getenv env ''JWT_SECRET'')) (bytes_of sstr)" and
    p: "\<And>now' key. ParseWithClaims lib now' tok (\<lambda>t. Inr key) =
              (if sig \<noteq> hmac_sha256 lib key (bytes_of sstr)
               then Inl (JwtError TokenSignatureInvalid)
               else Inr \<lparr>Header = hdr, Claims = issued_claims user now, Signature = sig, Valid = True\<rparr>)"
    by blast
  show ?thesis
    using ne by (simp add: p sig AuthRequired_def) (simp add: issued_claims_def)
qed

lemma sample_json_roundtrip:
  "json_roundtrip sample_jwt
     (issued_claims \<lparr>ID = 7, Username = ''al'', Password = [], Type = 0, ThirdPartyID = []\<rparr> 0)"
  by (simp add: json_roundtrip_def sample_jwt_def issued_claims_def string_of_def bytes_of_def
        unat_of_char comp_def char_of_eq_iff)

lemma sample_token:
  "signJWT sample_jwt sample_env 0 \<lparr>ID = 7, Username = ''al'', Password = [], Type = 0, ThirdPartyID = []\<rparr>
     = Inr ''SFMyNTY.B2Fs.czNjcmV0AFNGTXlOVFkuQjJGcw''"
  by (simp add: signJWT_eq sample_jwt_def EncodeSegment_def RawURLEncoding_def encodeURL_def
        bytes_of_def issued_claims_def Getenv_def sample_env_def)

theorem signJWT_AuthRequired_roundtrip_witness:
  "signJWT sample_jwt sample_env 0 \<lparr>ID = 7, Username = ''al'', Password = [], Type = 0, ThirdPartyID = []\<rparr>
     = Inr ''SFMyNTY.B2Fs.czNjcmV0AFNGTXlOVFkuQjJGcw'' \<and>
   AuthRequired sample_jwt sample_env 5 ''SFMyNTY.B2Fs.czNjcmV0AFNGTXlOVFkuQjJGcw'' = Next 7"
  using signJWT_AuthRequired_roundtrip[OF sample_json_roundtrip sample_token, of 5] sample_token
  by auto

lemma step_eval:
  "step T1 T2 (a, b, c, d, e, f, g, h) =
     (word_of_nat (unat (T1 + T2)), a, b, c, word_of_nat (unat (d + T1)), e, f, g)"
  by (simp add: step_def)

lemma schedule_eval:
  "schedule (numeral k) w =
     schedule (pred_numeral k)
       (w @ [word_of_nat (unat (sigma1 (w ! (length w - 2)) + w ! (length w - 7) +
                                sigma0 (w ! (length w - 15)) + w ! (length w - 16)))])"
  "schedule (Suc 0) w =
     w @ [word_of_nat (unat (sigma1 (w ! (length w - 2)) + w ! (length w - 7) +
                             sigma0 (w ! (length w - 15)) + w ! (length w - 16)))]"
  by (simp_all add: numeral_eq_Suc)

lemma add_digest_eval:
  "add_digest (a, b, c, d, e, f, g, h) (a', b', c', d', e', f', g', h') =
     (word_of_nat (unat (a + a')), word_of_nat (unat (b + b')), word_of_nat (unat (c + c')),
      word_of_nat (unat (d + d')), word_of_nat (unat (e + e')), word_of_nat (unat (f + f')),
      word_of_nat (unat (g + g')), word_of_nat (unat (h + h')))"
  by simp

lemma be_bytes_eval:
  "be_bytes w =
     [word_of_nat (unat (ucast (drop_bit 24 w) :: byte)), word_of_nat (unat (ucast (drop_bit 16 w) :: byte)),
      word_of_nat (unat (ucast (drop_bit 8 w) :: byte)), word_of_nat (unat (ucast w :: byte))]"
  by (simp add: be_bytes_def)

lemma replicate_eval: "replicate (numeral k) x = x # replicate (pred_numeral k) x"
  by (simp add: numeral_eq_Suc)

lemmas sha_eval = block256_def init256_def K256_def be32_def sigma0_def sigma1_def rotr_def
  schedule_eval step_eval add_digest_eval Sigma0_def Sigma1_def Ch_def Maj_def

lemmas sum_eval = Sum256_def pad256_def upt_rec replicate_eval blocks256.simps be_bytes_eval

lemma Sum256_a65_block1:
  "block256 init256
    [97, 97, 97, 97, 97, 97, 97, 97, 97, 97, 97, 97, 97, 97, 97, 97,
     97, 97, 97, 97, 97, 97, 97, 97, 97, 97, 97, 97, 97, 97, 97, 97,
     97, 97, 97, 97, 97, 97, 97, 97, 97, 97, 97, 97, 97, 97, 97, 97,
     97, 97, 97, 97, 97, 97, 97, 97, 97, 97, 97, 97, 97, 97, 97, 97] =
    (3747330076, 3894281766, 4215646356, 1339297585,
     2992531478, 3604257217, 2878359849, 6512230)"
  by (simp add: sha_eval del: schedule.simps add_digest.simps)

lemma Sum256_a65_block2:
  "block256 (3747330076, 3894281766, 4215646356, 1339297585,
     2992531478, 3604257217, 2878359849, 6512230)
    [97, 128, 0, 0, 0, 0, 0, 0, 0, 0, 0, 0, 0, 0, 0, 0,
     0, 0, 0, 0, 0, 0, 0, 0, 0, 0, 0, 0, 0, 0, 0, 0,
     0, 0, 0, 0, 0, 0, 0, 0, 0, 0, 0, 0, 0, 0, 0, 0,
     0, 0, 0, 0, 0, 0, 0, 0, 0, 0, 0, 0, 0, 0, 2, 8] =
    (1666408900, 2344217265, 1100539758, 2829811482,
     1097358698, 3593120020, 1831869775, 401279712)"
  by (simp add: sha_eval del: schedule.simps add_digest.simps)

lemma hmac_s3cret_inner_block1:
  "block256 init256
    [69, 5, 85, 68, 83, 66, 54, 54, 54, 54, 54, 54, 54, 54, 54, 54,
     54, 54, 54, 54, 54, 54, 54, 54, 54, 54, 54, 54, 54, 54, 54, 54,
     54, 54, 54, 54, 54, 54, 54, 54, 54, 54, 54, 54, 54, 54, 54, 54,
     54, 54, 54, 54, 54, 54, 54, 54, 54, 54, 54, 54, 54, 54, 54, 54] =
    (1966384223, 377553025, 3030809176, 2864474685,
     3503027754, 3991087758, 2268987000, 2260484374)"
  by (simp add: sha_eval del: schedule.simps add_digest.simps)

lemma hmac_s3cret_inner_block2:
  "block256 (1966384223, 377553025, 3030809176, 2864474685,
     3503027754, 3991087758, 2268987000, 2260484374)
    [83, 70, 77, 121, 78, 84, 89, 46, 66, 50, 70, 115, 128, 0, 0, 0,
     0, 0, 0, 0, 0, 0, 0, 0, 0, 0, 0, 0, 0, 0, 0, 0,
     0, 0, 0, 0, 0, 0, 0, 0, 0, 0, 0, 0, 0, 0, 0, 0,
     0, 0, 0, 0, 0, 0, 0, 0, 0, 0, 0, 0, 0, 0, 2, 96] =
    (1374383391, 2914658843, 4042376612, 411201446,
     372873886, 3068215367, 2127055408, 1894358344)"
  by (simp add: sha_eval del: schedule.simps add_digest.simps)

lemma hmac_s3cret_outer_block1:
  "block256 init256
    [47, 111, 63, 46, 57, 40, 92, 92, 92, 92, 92, 92, 92, 92, 92, 92,
     92, 92, 92, 92, 92, 92, 92, 92, 92, 92, 92, 92, 92, 92, 92, 92,
     92, 92, 92, 92, 92, 92, 92, 92, 92, 92, 92, 92, 92, 92, 92, 92,
     92, 92, 92, 92, 92, 92, 92, 92, 92, 92, 92, 92, 92, 92, 92, 92] =
    (3514664566, 2346807532, 1158600344, 1953363847,
     3535902058, 2719316736, 745268135, 232594081)"
  by (simp add: sha_eval del: schedule.simps add_digest.simps)

lemma hmac_s3cret_outer_block2:
  "block256 (3514664566, 2346807532, 1158600344, 1953363847,
     3535902058, 2719316736, 745268135, 232594081)
    [81, 235, 109, 31, 173, 186, 42, 27, 240, 241, 197, 164, 24, 130, 111, 166,
     22, 57, 154, 158, 182, 225, 64, 71, 126, 200, 74, 48, 112, 233, 157, 72,
     128, 0, 0, 0, 0, 0, 0, 0, 0, 0, 0, 0, 0, 0, 0, 0,
     0, 0, 0, 0, 0, 0, 0, 0, 0, 0, 0, 0, 0, 0, 3, 0] =
    (3680368804, 2275595180, 1495448600, 3930711719,
     542597230, 2492655066, 3820797791, 2592834393)"
  by (simp add: sha_eval del: schedule.simps add_digest.simps)

lemma hmac_other_inner_block1:
  "block256 init256
    [89, 66, 94, 83, 68, 54, 54, 54, 54, 54, 54, 54, 54, 54, 54, 54,
     54, 54, 54, 54, 54, 54, 54, 54, 54, 54, 54, 54, 54, 54, 54, 54,
     54, 54, 54, 54, 54, 54, 54, 54, 54, 54, 54, 54, 54, 54, 54, 54,
     54, 54, 54, 54, 54, 54, 54, 54, 54, 54, 54, 54, 54, 54, 54, 54] =
    (4170179445, 3017233956, 3845531639, 2013976098,
     2813381812, 895938755, 1307096266, 1089561373)"
  by (simp add: sha_eval del: schedule.simps add_digest.simps)

lemma hmac_other_inner_block2:
  "block256 (4170179445, 3017233956, 3845531639, 2013976098,
     2813381812, 895938755, 1307096266, 1089561373)
    [83, 70, 77, 121, 78, 84, 89, 46, 66, 50, 70, 115, 128, 0, 0, 0,
     0, 0, 0, 0, 0, 0, 0, 0, 0, 0, 0, 0, 0, 0, 0, 0,
     0, 0, 0, 0, 0, 0, 0, 0, 0, 0, 0, 0, 0, 0, 0, 0,
     0, 0, 0, 0, 0, 0, 0, 0, 0, 0, 0, 0, 0, 0, 2, 96] =
    (3780736199, 1864575215, 693730109, 2755931409,
     94405288, 946733127, 2048601443, 1746745209)"
  by (simp add: sha_eval del: schedule.simps add_digest.simps)

lemma hmac_other_outer_block1:
  "block256 init256
    [51, 40, 52, 57, 46, 92, 92, 92, 92, 92, 92, 92, 92, 92, 92, 92,
     92, 92, 92, 92, 92, 92, 92, 92, 92, 92, 92, 92, 92, 92, 92, 92,
     92, 92, 92, 92, 92, 92, 92, 92, 92, 92, 92, 92, 92, 92, 92, 92,
     92, 92, 92, 92, 92, 92, 92, 92, 92, 92, 92, 92, 92, 92, 92, 92] =
    (2812555556, 3824779262, 3637850755, 2972524407,
     3112678615, 3794667018, 831788734, 2905000641)"
  by (simp add: sha_eval del: schedule.simps add_digest.simps)

lemma hmac_other_outer_block2:
  "block256 (2812555556, 3824779262, 3637850755, 2972524407,
     3112678615, 3794667018, 831788734, 2905000641)
    [225, 89, 116, 199, 111, 35, 40, 239, 41, 89, 123, 61, 164, 68, 45, 17,
     5, 160, 130, 168, 56, 110, 0, 71, 122, 27, 45, 99, 104, 29, 55, 121,
     128, 0, 0, 0, 0, 0, 0, 0, 0, 0, 0, 0, 0, 0, 0, 0,
     0, 0, 0, 0, 0, 0, 0, 0, 0, 0, 0, 0, 0, 0, 3, 0] =
    (3613314429, 378628394, 1772358528, 2748524470,
     355069415, 4099438905, 2615798050, 1213925507)"
  by (simp add: sha_eval del: schedule.simps add_digest.simps)

lemma length_digest_bytes: "length (digest_bytes H) = 32"
  by (cases H) (auto simp: be_bytes_def)

lemma length_Sum256: "length (Sum256 m) = 32"
  by (simp add: Sum256_def length_digest_bytes)

lemma hmac_key_long: "64 < length key \<Longrightarrow> hmac_key (Sum256 key) = hmac_key key"
  by (simp add: hmac_key_def length_Sum256)

lemma HMAC_SHA256_long_key:
  "64 < length key \<Longrightarrow> HMAC_SHA256 (Sum256 key) msg = HMAC_SHA256 key msg"
  by (simp add: HMAC_SHA256_def hmac_key_long)

lemma Sum256_a65:
  "Sum256 (replicate 65 97) =
    [99, 83, 97, 196, 139, 185, 234, 177, 65, 152, 231, 110, 168, 171, 127, 26,
     65, 104, 93, 106, 214, 42, 169, 20, 109, 48, 29, 79, 23, 235, 10, 224]"
  by (simp add: sum_eval Sum256_a65_block1 Sum256_a65_block2)

lemma HMAC_SHA256_s3cret:
  "HMAC_SHA256 [115, 51, 99, 114, 101, 116]
     [83, 70, 77, 121, 78, 84, 89, 46, 66, 50, 70, 115] =
    [219, 93, 248, 164, 135, 162, 211, 172, 89, 34, 188, 24, 234, 73, 230, 167,
     32, 87, 96, 110, 148, 146, 229, 218, 227, 188, 191, 95, 154, 139, 131, 89]"
  by (simp add: HMAC_SHA256_def hmac_key_def sum_eval
        hmac_s3cret_inner_block1 hmac_s3cret_inner_block2
        hmac_s3cret_outer_block1 hmac_s3cret_outer_block2)

lemma HMAC_SHA256_other:
  "HMAC_SHA256 [111, 116, 104, 101, 114]
     [83, 70, 77, 121, 78, 84, 89, 46, 66, 50, 70, 115] =
    [215, 94, 205, 125, 22, 145, 105, 42, 105, 164, 11, 128, 163, 211, 39, 182,
     21, 41, 237, 231, 244, 88, 121, 57, 155, 233, 233, 34, 72, 91, 8, 131]"
  by (simp add: HMAC_SHA256_def hmac_key_def sum_eval
        hmac_other_inner_block1 hmac_other_inner_block2
        hmac_other_outer_block1 hmac_other_outer_block2)

lemma hmac_json_roundtrip: "json_roundtrip hmac_jwt c = json_roundtrip sample_jwt c"
  by (simp add: json_roundtrip_def hmac_jwt_def)

lemma sample_signing_input:
  "signing_input hmac_jwt \<lparr>ID = 7, Username = ''al'', Password = [], Type = 0, ThirdPartyID = []\<rparr> 0 =
     [83, 70, 77, 121, 78, 84, 89, 46, 66, 50, 70, 115]"
  by (simp add: signing_input_def SigningString_def NewWithClaims_def issued_claims_def hmac_jwt_def
        sample_jwt_def EncodeSegment_def RawURLEncoding_def encodeURL_def bytes_of_def)

lemma sample_issued_tag:
  "issued_tag hmac_jwt sample_env \<lparr>ID = 7, Username = ''al'', Password = [], Type = 0, ThirdPartyID = []\<rparr> 0 =
     [219, 93, 248, 164, 135, 162, 211, 172, 89, 34, 188, 24, 234, 73, 230, 167,
     32, 87, 96, 110, 148, 146, 229, 218, 227, 188, 191, 95, 154, 139, 131, 89]"
  "issued_tag hmac_jwt other_env \<lparr>ID = 7, Username = ''al'', Password = [], Type = 0, ThirdPartyID = []\<rparr> 0 =
     [215, 94, 205, 125, 22, 145, 105, 42, 105, 164, 11, 128, 163, 211, 39, 182,
     21, 41, 237, 231, 244, 88, 121, 57, 155, 233, 233, 34, 72, 91, 8, 131]"
  by (simp_all add: issued_tag_def sample_signing_input Getenv_def sample_env_def other_env_def
        HMAC_SHA256_s3cret HMAC_SHA256_other)
     (simp_all add: hmac_jwt_def bytes_of_def HMAC_SHA256_s3cret HMAC_SHA256_other)

lemma hmac_token:
  "signJWT hmac_jwt sample_env 0 \<lparr>ID = 7, Username = ''al'', Password = [], Type = 0, ThirdPartyID = []\<rparr>
     = Inr ''SFMyNTY.B2Fs.2134pIei06xZIrwY6knmpyBXYG6UkuXa47y_X5qLg1k''"
  by (simp add: signJWT_eq hmac_jwt_def sample_jwt_def EncodeSegment_def RawURLEncoding_def
        encodeURL_def bytes_of_def issued_claims_def Getenv_def sample_env_def HMAC_SHA256_s3cret)

lemma digest_secret:
  "bytes_of (Getenv digest_env ''JWT_SECRET'') = Sum256 (bytes_of (Getenv long_env ''JWT_SECRET''))"
  by (simp add: Getenv_def digest_env_def long_env_def bytes_of_def Sum256_a65)

text \<open>
  Claim C9, as stated, fails: two distinct secrets do not always reject each other's
  tokens. HMAC replaces a key longer than 64 bytes by its SHA-256 digest, so a long
  secret and its digest are the same key. The secret of \<open>long_env\<close> is 65 times the
  letter a, the secret of \<open>digest_env\<close> is the digest of that string; the two differ
  and neither contains a zero byte. The token that \<open>signJWT\<close> issues for user 7 under
  the first secret passes \<open>AuthRequired\<close> under the second, which continues to the
  next handler with user ID 7.
\<close>

theorem AuthRequired_digest_secret_counterexample:
  "Getenv long_env ''JWT_SECRET'' \<noteq> Getenv digest_env ''JWT_SECRET'' \<and>
   CHR 0x00 \<notin> set (Getenv long_env ''JWT_SECRET'') \<and>
   CHR 0x00 \<notin> set (Getenv digest_env ''JWT_SECRET'') \<and>
   (\<exists>tok. signJWT hmac_jwt long_env 0 \<lparr>ID = 7, Username = ''al'', Password = [], Type = 0, ThirdPartyID = []\<rparr> = Inr tok \<and>
          AuthRequired hmac_jwt digest_env 5 tok = Next 7)"
proof -
  let ?u = "\<lparr>ID = 7, Username = ''al'', Password = [], Type = 0, ThirdPartyID = []\<rparr>"
  obtain tok where t: "signJWT hmac_jwt long_env 0 ?u = Inr tok"
    using signJWT_Inr by blast
  have j: "json_roundtrip hmac_jwt (issued_claims ?u 0)"
    unfolding hmac_json_roundtrip by (rule sample_json_roundtrip)
  from ParseWithClaims_signJWT[OF j t] obtain hdr sig sstr where
    ne: "tok \<noteq> []" and
    sig: "sig = hmac_sha256 hmac_jwt (bytes_of (Getenv long_env ''JWT_SECRET'')) (bytes_of sstr)" and
    p: "\<And>now' key. ParseWithClaims hmac_jwt now' tok (\<lambda>t. Inr key) =
              (if sig \<noteq> hmac_sha256 hmac_jwt key (bytes_of sstr)
               then Inl (JwtError TokenSignatureInvalid)
               else Inr \<lparr>Header = hdr, Claims = issued_claims ?u 0, Signature = sig, Valid = True\<rparr>)"
    by blast
  have len: "64 < length (bytes_of (Getenv long_env ''JWT_SECRET''))"
    by (simp add: Getenv_def long_env_def bytes_of_def)
  have same: "hmac_sha256 hmac_jwt (bytes_of (Getenv digest_env ''JWT_SECRET'')) (bytes_of sstr) = sig"
    unfolding sig digest_secret by (simp add: hmac_jwt_def HMAC_SHA256_long_key[OF len])
  have "AuthRequired hmac_jwt digest_env 5 tok = Next 7"
    using ne by (simp add: AuthRequired_def p same issued_claims_def)
  moreover have "Getenv long_env ''JWT_SECRET'' \<noteq> Getenv digest_env ''JWT_SECRET''"
  proof
    assume "Getenv long_env ''JWT_SECRET'' = Getenv digest_env ''JWT_SECRET''"
    then have "length (Getenv long_env ''JWT_SECRET'') = length (Getenv digest_env ''JWT_SECRET'')"
      by simp
    then show False
      by (simp add: Getenv_def long_env_def digest_env_def)
  qed
  moreover have "CHR 0x00 \<notin> set (Getenv long_env ''JWT_SECRET'')"
    by (simp add: Getenv_def long_env_def)
  moreover have "CHR 0x00 \<notin> set (Getenv digest_env ''JWT_SECRET'')"
    by (simp add: Getenv_def digest_env_def)
  ultimately show ?thesis using t by blast
qed

text \<open>
  Claim C9, amended. A token issued by \<open>signJWT\<close> under one secret and presented to
  \<open>AuthRequired\<close> under another is checked by comparing its signature with the MAC
  of its signing string under the verifying secret. When the two secrets give different
  tags for that signing string, parsing returns the signature error, the request is
  aborted with status 401, and \<open>AuthRequired\<close> neither continues to the next handler
  nor sets a user ID. When they give the same tag, the token is accepted and the request
  continues with the user's ID. Distinct secrets can give the same tag (see above), so
  the rejection is a matter of the tags, not of the secrets, being different.
\<close>

theorem AuthRequired_other_secret:
  assumes "json_roundtrip lib (issued_claims user now)"
    and "signJWT lib env now user = Inr tok"
  shows "(issued_tag lib env' user now \<noteq> issued_tag lib env user now \<longrightarrow>
            ParseWithClaims lib now' tok (\<lambda>t. Inr (bytes_of (Getenv env' ''JWT_SECRET''))) =
              Inl (JwtError TokenSignatureInvalid) \<and>
            AuthRequired lib env' now' tok = AbortWithStatus 401 \<and>
            (\<forall>uid. AuthRequired lib env' now' tok \<noteq> Next uid)) \<and>
         (issued_tag lib env' user now = issued_tag lib env user now \<longrightarrow>
            AuthRequired lib env' now' tok = Next (ID user))"
proof -
  from ParseWithClaims_signJWT[OF assms] obtain hdr sig sstr where
    ne: "tok \<noteq> []" and
    sig: "sig = hmac_sha256 lib (bytes_of (Getenv env ''JWT_SECRET'')) (bytes_of sstr)" and
    p: "\<And>now' key. ParseWithClaims lib now' tok (\<lambda>t. Inr key) =
              (if sig \<noteq> hmac_sha256 lib key (bytes_of sstr)
               then Inl (JwtError TokenSignatureInvalid)
               else Inr \<lparr>Header = hdr, Claims = issued_claims user now, Signature = sig, Valid = True\<rparr>)" and
    ss: "bytes_of sstr = signing_input lib user now"
    by blast
  have tag: "sig = issued_tag lib env user now"
    by (simp add: sig ss issued_tag_def)
  have tag': "hmac_sha256 lib (bytes_of (Getenv env' ''JWT_SECRET'')) (bytes_of sstr) =
              issued_tag lib env' user now"
    by (simp add: ss issued_tag_def)
  show ?thesis
  proof (intro conjI impI)
    assume d: "issued_tag lib env' user now \<noteq> issued_tag lib env user now"
    then show pe: "ParseWithClaims lib now' tok (\<lambda>t. Inr (bytes_of (Getenv env' ''JWT_SECRET''))) =
              Inl (JwtError TokenSignatureInvalid)"
      by (simp add: p tag' tag [symmetric])
    show a: "AuthRequired lib env' now' tok = AbortWithStatus 401"
      by (simp add: pe AuthRequired_def)
    show "\<forall>uid. AuthRequired lib env' now' tok \<noteq> Next uid"
      by (simp add: a)
  next
    assume "issued_tag lib env' user now = issued_tag lib env user now"
    then have "ParseWithClaims lib now' tok (\<lambda>t. Inr (bytes_of (Getenv env' ''JWT_SECRET''))) =
        Inr \<lparr>Header = hdr, Claims = issued_claims user now, Signature = sig, Valid = True\<rparr>"
      by (simp add: p tag' tag [symmetric])
    then show "AuthRequired lib env' now' tok = Next (ID user)"
      using ne by (simp add: AuthRequired_def issued_claims_def)
  qed
qed

theorem AuthRequired_other_secret_witness:
  "signJWT hmac_jwt sample_env 0 \<lparr>ID = 7, Username = ''al'', Password = [], Type = 0, ThirdPartyID = []\<rparr>
     = Inr ''SFMyNTY.B2Fs.2134pIei06xZIrwY6knmpyBXYG6UkuXa47y_X5qLg1k'' \<and>
   ParseWithClaims hmac_jwt 5 ''SFMyNTY.B2Fs.2134pIei06xZIrwY6knmpyBXYG6UkuXa47y_X5qLg1k''
     (\<lambda>t. Inr (bytes_of (Getenv other_env ''JWT_SECRET''))) = Inl (JwtError TokenSignatureInvalid) \<and>
   AuthRequired hmac_jwt other_env 5 ''SFMyNTY.B2Fs.2134pIei06xZIrwY6knmpyBXYG6UkuXa47y_X5qLg1k''
     = AbortWithStatus 401 \<and>
   AuthRequired hmac_jwt sample_env 5 ''SFMyNTY.B2Fs.2134pIei06xZIrwY6knmpyBXYG6UkuXa47y_X5qLg1k''
     = Next 7"
proof -
  have j: "json_roundtrip hmac_jwt (issued_claims \<lparr>ID = 7, Username = ''al'', Password = [], Type = 0, ThirdPartyID = []\<rparr> 0)"
    unfolding hmac_json_roundtrip by (rule sample_json_roundtrip)
  show ?thesis
    using AuthRequired_other_secret[OF j hmac_token, of other_env 5]
      AuthRequired_other_secret[OF j hmac_token, of sample_env 5] hmac_token
    by (simp add: sample_issued_tag)
qed

end
